theory Spec2Isabelle
  imports Main
begin

section \<open>Time values and the Date object\<close>

text \<open>
  The reminder screen computes with JavaScript \<^verbatim>\<open>Date\<close> objects. A Date holds a time
  value: the number of milliseconds since 1970-01-01T00:00:00Z. The functions of this
  section are the abstract operations of ECMA-262 (section "Date Objects") on which the methods
  \<^verbatim>\<open>getHours\<close>, \<^verbatim>\<open>getMinutes\<close>, \<^verbatim>\<open>getDate\<close>, \<^verbatim>\<open>setHours\<close>,
  \<^verbatim>\<open>setDate\<close> and \<^verbatim>\<open>toISOString\<close> are built.

  Two things of the platform are parameters or left out here. The local time zone is a
  parameter: its offset from UTC depends on the instant (it changes at every daylight-saving
  transition), so local time is read off, and turned back into an instant, the way ECMA-262
  prescribes for a zone with transitions. And a time value is an unbounded integer, so the range
  check \<^verbatim>\<open>TimeClip\<close> (instants more than 8.64e15 ms away from the epoch become an invalid
  Date) is left out.
\<close>

type_synonym Date = int

definition msPerDay :: int where "msPerDay = 86400000"
definition msPerHour :: int where "msPerHour = 3600000"
definition msPerMinute :: int where "msPerMinute = 60000"
definition msPerSecond :: int where "msPerSecond = 1000"

definition Day :: "int \<Rightarrow> int" where
  "Day t = t div msPerDay"

definition TimeWithinDay :: "int \<Rightarrow> int" where
  "TimeWithinDay t = t mod msPerDay"

definition HourFromTime :: "int \<Rightarrow> int" where
  "HourFromTime t = (t div msPerHour) mod 24"

definition MinFromTime :: "int \<Rightarrow> int" where
  "MinFromTime t = (t div msPerMinute) mod 60"

definition SecFromTime :: "int \<Rightarrow> int" where
  "SecFromTime t = (t div msPerSecond) mod 60"

definition msFromTime :: "int \<Rightarrow> int" where
  "msFromTime t = t mod msPerSecond"

definition MakeTime :: "int \<Rightarrow> int \<Rightarrow> int \<Rightarrow> int \<Rightarrow> int" where
  "MakeTime hour minute sec ms = hour * msPerHour + minute * msPerMinute + sec * msPerSecond + ms"

definition MakeDate :: "int \<Rightarrow> int \<Rightarrow> int" where
  "MakeDate day time = day * msPerDay + time"

subsection \<open>The local time zone\<close>

text \<open>
  A time zone is given by the offset from UTC in force before its first transition, and by its
  transitions in ascending order of time: each one with the instant at which it happens and the
  offset in force from then on. Offsets are in milliseconds, positive east of Greenwich.
\<close>

record TimeZone =
  baseOffset :: int
  transitions :: "(int \<times> int) list"

fun offsetFrom :: "int \<Rightarrow> (int \<times> int) list \<Rightarrow> int \<Rightarrow> int" where
  "offsetFrom off [] t = off"
| "offsetFrom off ((start, off') # rest) t = (if t < start then off else offsetFrom off' rest t)"

text \<open>The offset in force at the instant \<open>t\<close> (\<^verbatim>\<open>GetNamedTimeZoneOffsetNanoseconds\<close>).\<close>

definition offsetAt :: "TimeZone \<Rightarrow> int \<Rightarrow> int" where
  "offsetAt z t = offsetFrom (baseOffset z) (transitions z) t"

definition LocalTime :: "TimeZone \<Rightarrow> int \<Rightarrow> int" where
  "LocalTime z t = t + offsetAt z t"

text \<open>
  The instants at which the local clock shows the local time \<open>t\<close>, in ascending order
  (\<^verbatim>\<open>GetNamedTimeZoneEpochNanoseconds\<close>): none when a transition that moves the clock forward
  skips \<open>t\<close>, two when a transition that moves the clock back repeats it. Such an instant is
  \<open>t\<close> less one of the offsets of the zone, so these are the candidates that are tried.
\<close>

definition possibleInstants :: "TimeZone \<Rightarrow> int \<Rightarrow> int list" where
  "possibleInstants z t =
     sort (remdups (filter (\<lambda>u. LocalTime z u = t)
                      (map (\<lambda>off. t - off) (baseOffset z # map snd (transitions z)))))"

text \<open>The last local time shown before each transition.\<close>

fun lastLocalTimes :: "int \<Rightarrow> (int \<times> int) list \<Rightarrow> int list" where
  "lastLocalTimes off [] = []"
| "lastLocalTimes off ((start, off') # rest) = (start + off - 1) # lastLocalTimes off' rest"

text \<open>
  \<^verbatim>\<open>UTC(t)\<close>: the instant for the local time \<open>t\<close>. A local time shown more than once
  stands for its first instant. A local time that is skipped is read with the offset in force
  before the transition that skips it: the offset at the last instant of the latest local time
  before \<open>t\<close> that is shown, and that local time is the last one before a transition. (The
  innermost default, the base offset, is never reached: a skipped local time always has one
  before it that is shown.)
\<close>

definition UTC :: "TimeZone \<Rightarrow> int \<Rightarrow> int" where
  "UTC z t =
     (case possibleInstants z t of
        u # us \<Rightarrow> t - offsetAt z u
      | [] \<Rightarrow>
          (case sort (filter (\<lambda>tBefore. tBefore < t \<and> possibleInstants z tBefore \<noteq> [])
                        (lastLocalTimes (baseOffset z) (transitions z))) of
             [] \<Rightarrow> t - baseOffset z
           | tb # tbs \<Rightarrow> t - offsetAt z (last (possibleInstants z (last (tb # tbs))))))"

text \<open>The zone without transitions, at the constant offset \<open>tza\<close>.\<close>

definition fixedOffset :: "int \<Rightarrow> TimeZone" where
  "fixedOffset tza = \<lparr>baseOffset = tza, transitions = []\<rparr>"

subsection \<open>The calendar\<close>

definition DaysInYear :: "int \<Rightarrow> int" where
  "DaysInYear y =
     (if y mod 4 \<noteq> 0 then 365
      else if y mod 100 \<noteq> 0 then 366
      else if y mod 400 \<noteq> 0 then 365
      else 366)"

definition DayFromYear :: "int \<Rightarrow> int" where
  "DayFromYear y =
     365 * (y - 1970) + (y - 1969) div 4 - (y - 1901) div 100 + (y - 1601) div 400"

lemma DayFromYear_step: "DayFromYear y + 364 \<le> DayFromYear (y + 1)"
proof -
  define a b c a' b' c' where "a = (y - 1969) div 4" and "b = (y - 1901) div 100"
    and "c = (y - 1601) div 400" and "a' = (y + 1 - 1969) div 4"
    and "b' = (y + 1 - 1901) div 100" and "c' = (y + 1 - 1601) div 400"
  have "a \<le> a'" unfolding a_def a'_def by (rule zdiv_mono1) simp_all
  moreover have "c \<le> c'" unfolding c_def c'_def by (rule zdiv_mono1) simp_all
  moreover have "b' \<le> b + 1"
  proof -
    have "b' \<le> (y - 1901 + 100) div 100"
      unfolding b'_def by (rule zdiv_mono1) simp_all
    also have "\<dots> = b + 1" unfolding b_def by simp
    finally show ?thesis .
  qed
  moreover have "DayFromYear y = 365 * (y - 1970) + a - b + c"
    unfolding DayFromYear_def a_def b_def c_def by (rule refl)
  moreover have "DayFromYear (y + 1) = 365 * (y + 1 - 1970) + a' - b' + c'"
    unfolding DayFromYear_def a'_def b'_def c'_def by (rule refl)
  ultimately show ?thesis by (simp add: algebra_simps)
qed

text \<open>
  \<^verbatim>\<open>YearFromTime(t)\<close> is the largest year \<open>y\<close> whose first day is not after \<open>t\<close>. It is
  computed by a search upwards from an estimate that is never too large.
\<close>

function yearSearch :: "int \<Rightarrow> int \<Rightarrow> int" where
  "yearSearch d y = (if DayFromYear (y + 1) \<le> d then yearSearch d (y + 1) else y)"
  by pat_completeness auto
termination
proof (relation "measure (\<lambda>(d, y). nat (d + 1 - DayFromYear (y + 1)))")
  show "wf (measure (\<lambda>(d, y). nat (d + 1 - DayFromYear (y + 1))))" by simp
next
  fix d y :: int
  assume "DayFromYear (y + 1) \<le> d"
  moreover have "DayFromYear (y + 1) + 364 \<le> DayFromYear (y + 1 + 1)"
    by (rule DayFromYear_step)
  ultimately show "((d, y + 1), (d, y)) \<in> measure (\<lambda>(d, y). nat (d + 1 - DayFromYear (y + 1)))"
    by simp
qed

declare yearSearch.simps [simp del]

definition YearFromTime :: "int \<Rightarrow> int" where
  "YearFromTime t =
     (let d = Day t
      in yearSearch d (1970 + (if 0 \<le> d then d div 366 else d div 365)))"

definition InLeapYear :: "int \<Rightarrow> int" where
  "InLeapYear t = (if DaysInYear (YearFromTime t) = 366 then 1 else 0)"

definition DayWithinYear :: "int \<Rightarrow> int" where
  "DayWithinYear t = Day t - DayFromYear (YearFromTime t)"

text \<open>The day within the year on which month \<open>m\<close> (0 to 11) starts; \<open>leap\<close> is 1 in a leap year.\<close>

definition MonthStartDay :: "int \<Rightarrow> int \<Rightarrow> int" where
  "MonthStartDay m leap =
     (if m = 0 then 0
      else if m = 1 then 31
      else if m = 2 then 59 + leap
      else if m = 3 then 90 + leap
      else if m = 4 then 120 + leap
      else if m = 5 then 151 + leap
      else if m = 6 then 181 + leap
      else if m = 7 then 212 + leap
      else if m = 8 then 243 + leap
      else if m = 9 then 273 + leap
      else if m = 10 then 304 + leap
      else 334 + leap)"

definition MonthFromTime :: "int \<Rightarrow> int" where
  "MonthFromTime t =
     (let d = DayWithinYear t; leap = InLeapYear t
      in if d < 31 then 0
         else if d < 59 + leap then 1
         else if d < 90 + leap then 2
         else if d < 120 + leap then 3
         else if d < 151 + leap then 4
         else if d < 181 + leap then 5
         else if d < 212 + leap then 6
         else if d < 243 + leap then 7
         else if d < 273 + leap then 8
         else if d < 304 + leap then 9
         else if d < 334 + leap then 10
         else 11)"

definition DateFromTime :: "int \<Rightarrow> int" where
  "DateFromTime t = DayWithinYear t - MonthStartDay (MonthFromTime t) (InLeapYear t) + 1"

text \<open>
  \<^verbatim>\<open>MakeDay(year, month, date)\<close>: the day number of the first day of the month, plus
  \<open>date - 1\<close>. A \<open>date\<close> past the end of the month runs on into the following months.
\<close>

definition MakeDay :: "int \<Rightarrow> int \<Rightarrow> int \<Rightarrow> int" where
  "MakeDay year month date =
     (let ym = year + month div 12;
          mn = month mod 12
      in DayFromYear ym + MonthStartDay mn (if DaysInYear ym = 366 then 1 else 0) + date - 1)"

subsection \<open>The methods of Date used by the screen\<close>

text \<open>The methods that read or write local fields take the local time zone \<open>z\<close>.\<close>

definition getTime :: "Date \<Rightarrow> int" where
  "getTime d = d"

definition getHours :: "TimeZone \<Rightarrow> Date \<Rightarrow> int" where
  "getHours z d = HourFromTime (LocalTime z d)"

definition getMinutes :: "TimeZone \<Rightarrow> Date \<Rightarrow> int" where
  "getMinutes z d = MinFromTime (LocalTime z d)"



definition getDate :: "TimeZone \<Rightarrow> Date \<Rightarrow> int" where
  "getDate z d = DateFromTime (LocalTime z d)"

definition setHours :: "TimeZone \<Rightarrow> Date \<Rightarrow> int \<Rightarrow> int \<Rightarrow> int \<Rightarrow> int \<Rightarrow> Date" where
  "setHours z d hour minute sec ms =
     UTC z (MakeDate (Day (LocalTime z d)) (MakeTime hour minute sec ms))"

definition setDate :: "TimeZone \<Rightarrow> Date \<Rightarrow> int \<Rightarrow> Date" where
  "setDate z d date =
     (let t = LocalTime z d
      in UTC z (MakeDate (MakeDay (YearFromTime t) (MonthFromTime t) date) (TimeWithinDay t)))"

section \<open>The trigger calculator\<close>

text \<open>
  \<^verbatim>\<open>getNextReminderDate(selectedTime)\<close> reads the clock (\<^verbatim>\<open>new Date()\<close>); the instant
  it reads is the argument \<open>now\<close>.
\<close>

definition getNextReminderDate :: "TimeZone \<Rightarrow> Date \<Rightarrow> Date \<Rightarrow> Date" where
  "getNextReminderDate z now selectedTime =
     (let next = now;
          next = setHours z next (getHours z selectedTime) (getMinutes z selectedTime) 0 0
      in if getTime next \<le> getTime now
         then setDate z next (getDate z next + 1)
         else next)"

text \<open>
  The next-instant rule in the words of the specification. The local time
  \<open>hour:minute:00.000\<close> on local day \<open>day\<close> is \<open>wallClock day hour minute\<close>, and the
  instant that stands for it is \<open>wallClockInstant z day hour minute\<close>. The rule takes that
  instant today if it is strictly in the future, and tomorrow otherwise.
\<close>

definition wallClock :: "int \<Rightarrow> int \<Rightarrow> int \<Rightarrow> int" where
  "wallClock day hour minute = MakeDate day (MakeTime hour minute 0 0)"

definition wallClockInstant :: "TimeZone \<Rightarrow> int \<Rightarrow> int \<Rightarrow> int \<Rightarrow> int" where
  "wallClockInstant z day hour minute = UTC z (wallClock day hour minute)"

definition nextInstant :: "TimeZone \<Rightarrow> int \<Rightarrow> int \<Rightarrow> int \<Rightarrow> int" where
  "nextInstant z hour minute now =
     (let today = Day (LocalTime z now)
      in if now < wallClockInstant z today hour minute
         then wallClockInstant z today hour minute
         else wallClockInstant z (today + 1) hour minute)"

section \<open>Strings\<close>

text \<open>
  A JavaScript string is a sequence of UTF-16 code units. Here a string is a list of 8-bit
  characters, read as the code units below 256; the white space and line terminators that
  \<^verbatim>\<open>String.prototype.trim\<close> strips are, in that range, TAB, LF, VT, FF, CR, SPACE and
  NO-BREAK SPACE.
\<close>

definition isWhiteSpace :: "char \<Rightarrow> bool" where
  "isWhiteSpace c =
     (c = CHR 0x09 \<or> c = CHR 0x0A \<or> c = CHR 0x0B \<or> c = CHR 0x0C \<or> c = CHR 0x0D
      \<or> c = CHR 0x20 \<or> c = CHR 0xA0)"

definition trim :: "string \<Rightarrow> string" where
  "trim s = rev (dropWhile isWhiteSpace (rev (dropWhile isWhiteSpace s)))"

text \<open>\<^verbatim>\<open>s.split(sep)\<close> for a separator of one character; the empty string splits into \<^verbatim>\<open>['']\<close>.\<close>

fun splitString :: "char \<Rightarrow> string \<Rightarrow> string list" where
  "splitString sep [] = [[]]"
| "splitString sep (c # cs) =
     (if c = sep then [] # splitString sep cs
      else (case splitString sep cs of
              [] \<Rightarrow> [[c]]
            | piece # pieces \<Rightarrow> (c # piece) # pieces))"

text \<open>Decimal numerals, as a template literal renders an integer.\<close>

definition digit :: "nat \<Rightarrow> char" where
  "digit n = ''0123456789'' ! (n mod 10)"

fun showNat :: "nat \<Rightarrow> string" where
  "showNat n = (if n < 10 then [digit n] else showNat (n div 10) @ [digit n])"

declare showNat.simps [simp del]

definition showInt :: "int \<Rightarrow> string" where
  "showInt i = (if i < 0 then ''-'' @ showNat (nat (- i)) else showNat (nat i))"

definition padStart :: "nat \<Rightarrow> int \<Rightarrow> string" where
  "padStart width i = (let s = showNat (nat i) in replicate (width - length s) CHR ''0'' @ s)"

text \<open>
  \<^verbatim>\<open>Date.prototype.toISOString\<close>: the UTC fields, as \<^verbatim>\<open>YYYY-MM-DDTHH:mm:ss.sssZ\<close>; a year
  outside 0 to 9999 is written with a sign and six digits.
\<close>

definition toISOString :: "Date \<Rightarrow> string" where
  "toISOString d =
     (let y = YearFromTime d
      in (if 0 \<le> y \<and> y \<le> 9999 then padStart 4 y
          else (if y < 0 then ''-'' else ''+'') @ padStart 6 \<bar>y\<bar>)
         @ ''-'' @ padStart 2 (MonthFromTime d + 1)
         @ ''-'' @ padStart 2 (DateFromTime d)
         @ ''T'' @ padStart 2 (HourFromTime d)
         @ '':'' @ padStart 2 (MinFromTime d)
         @ '':'' @ padStart 2 (SecFromTime d)
         @ ''.'' @ padStart 3 (msFromTime d)
         @ ''Z'')"

section \<open>The data model\<close>

datatype NoteType = Todo | Text

datatype RepeatOption = Once | Daily | Weekly | Custom

record TodoItem =
  id_t :: string
  text_t :: string
  done_t :: bool

record Reminder =
  id_r :: string
  title :: string
  reminderTime :: string
  repeat :: RepeatOption
  customRepeatMinutes :: "int option"
  noteType :: NoteType
  notes_r :: string
  todoItems :: "TodoItem list"
  notificationId :: "string option"
  completed :: bool

definition MIN_CUSTOM_REPEAT_MINUTES :: int where
  "MIN_CUSTOM_REPEAT_MINUTES = 30"

text \<open>
  A value used as a condition (\<^verbatim>\<open>if (editingReminderId)\<close>,
  \<^verbatim>\<open>if (existingReminder?.notificationId)\<close>): an absent value and the empty string are
  both false.
\<close>

definition truthy :: "string option \<Rightarrow> bool" where
  "truthy v = (case v of None \<Rightarrow> False | Some x \<Rightarrow> x \<noteq> [])"

section \<open>The notification subsystem\<close>

text \<open>
  The triggers of the notification library. A timestamp trigger fires at an instant, and
  again every day or every week when it carries the repeat frequency \<open>DAILY\<close> or
  \<open>WEEKLY\<close>; an interval trigger fires every \<open>interval\<close> units of time, counted from the
  moment it is created.
\<close>

datatype TimeUnit = SECONDS | MINUTES | HOURS | DAYS

datatype RepeatFrequency = NONE | HOURLY | DAILY | WEEKLY

datatype Trigger =
    IntervalTrigger (interval: int) (timeUnit: TimeUnit)
  | TimestampTrigger (timestamp: int) (allowWhileIdle: bool) (repeatFrequency: "RepeatFrequency option")

text \<open>The period of a repeat frequency, in days (an hourly one has no whole number of days).\<close>

fun periodDays :: "RepeatFrequency \<Rightarrow> nat option" where
  "periodDays DAILY = Some 1"
| "periodDays WEEKLY = Some 7"
| "periodDays NONE = None"
| "periodDays HOURLY = None"

text \<open>
  A scheduled notification: its id, title and body, the reminder id it carries as data, and
  its trigger. The channel, sound and press-action settings are the same for every notification
  of the screen and are left out.
\<close>

record Notification =
  id_n :: string
  title_n :: string
  body :: string
  data_reminderId :: string
  trigger :: Trigger

text \<open>
  The device keeps the list of live notifications. Cancelling an id removes the notification that
  has it, and does nothing when there is none. Creating a notification under an id replaces a
  live notification of the same id.
\<close>

definition cancelNotification :: "string \<Rightarrow> Notification list \<Rightarrow> Notification list" where
  "cancelNotification nid live = filter (\<lambda>n. id_n n \<noteq> nid) live"

definition createTriggerNotification :: "Notification \<Rightarrow> Notification list \<Rightarrow> Notification list" where
  "createTriggerNotification n live = filter (\<lambda>n'. id_n n' \<noteq> id_n n) live @ [n]"

text \<open>The local variable \<^verbatim>\<open>trigger\<close> of \<^verbatim>\<open>scheduleReminderNotification\<close>.\<close>

definition buildTrigger :: "Date \<Rightarrow> RepeatOption \<Rightarrow> int option \<Rightarrow> Trigger" where
  "buildTrigger reminderDate repeat' customMinutes =
     (if repeat' = Custom
      then IntervalTrigger
             (case customMinutes of Some minutes \<Rightarrow> minutes | None \<Rightarrow> MIN_CUSTOM_REPEAT_MINUTES)
             MINUTES
      else
        (let frequency = None;
             frequency = (if repeat' = Daily then Some DAILY else frequency);
             frequency = (if repeat' = Weekly then Some WEEKLY else frequency)
         in TimestampTrigger (getTime reminderDate) True frequency))"

text \<open>
  \<^verbatim>\<open>scheduleReminderNotification\<close>. The library chooses the id of the notification it
  creates; that id is the argument \<open>newId\<close>. The result is the id and the new list of live
  notifications.
\<close>

definition scheduleReminderNotification ::
  "string \<Rightarrow> string \<Rightarrow> string \<Rightarrow> string \<Rightarrow> Date \<Rightarrow> RepeatOption \<Rightarrow> int option
     \<Rightarrow> Notification list \<Rightarrow> string \<times> Notification list" where
  "scheduleReminderNotification newId reminderId title' notes' reminderDate repeat' customMinutes live =
     (newId,
      createTriggerNotification
        \<lparr>id_n = newId, title_n = ''Reminder'', body = title', data_reminderId = reminderId,
         trigger = buildTrigger reminderDate repeat' customMinutes\<rparr>
        live)"


section \<open>The reminder screen\<close>

text \<open>
  The state variables of the component \<^verbatim>\<open>ReminderScreen\<close> that saving, loading and
  deleting read or write (\<open>noteType_state\<close> and \<open>customRepeatMinutes_state\<close> are the state
  variables \<^verbatim>\<open>noteType\<close> and \<^verbatim>\<open>customRepeatMinutes\<close>), together with the two parts of the
  device the screen acts on: the live notifications, and the alerts shown to the user (title
  and message, oldest first).
\<close>

record AppState =
  isAddSectionVisible :: bool
  newReminder :: string
  showNotes :: bool
  newNotes :: string
  newTodoItemText :: string
  draftTodoItems :: "TodoItem list"
  noteType_state :: NoteType
  repeatOption :: RepeatOption
  customRepeatMinutes_state :: int
  reminders :: "Reminder list"
  hasLoadedReminders :: bool
  selectedTime :: Date
  editingReminderId :: "string option"
  notifications :: "Notification list"
  alerts :: "(string \<times> string) list"

text \<open>
  What the platform answers during one save: the local time zone, the clock read
  by \<^verbatim>\<open>getNextReminderDate\<close>, the clock read for the id of a new reminder
  (\<^verbatim>\<open>Date.now()\<close>), and the id the notification library gives the notification it creates.
  Calls to the notification library succeed.
\<close>

record Platform =
  timeZone :: TimeZone
  dateNow :: Date
  idNow :: int
  createdId :: string

definition Alert_alert :: "string \<Rightarrow> string \<Rightarrow> AppState \<Rightarrow> AppState" where
  "Alert_alert heading message s = s\<lparr>alerts := alerts s @ [(heading, message)]\<rparr>"

definition customRepeatAdvisory :: "string \<times> string" where
  "customRepeatAdvisory =
     (''Custom repeat updated'',
      ''Minimum supported custom repeat is every 30 minutes. We set it to 30 minutes.'')"

definition addTodoItemsPrompt :: "string \<times> string" where
  "addTodoItemsPrompt =
     (''Add todo items'', ''Please add at least one todo item before saving.'')"

text \<open>The state updates that end a save: the composer is emptied and closed.\<close>

definition closeComposer :: "AppState \<Rightarrow> AppState" where
  "closeComposer s =
     s\<lparr>newReminder := [],
       showNotes := False,
       newNotes := [],
       newTodoItemText := [],
       draftTodoItems := [],
       noteType_state := Text,
       repeatOption := Once,
       customRepeatMinutes_state := 30,
       editingReminderId := None,
       isAddSectionVisible := False\<rparr>"

definition saveReminder :: "Platform \<Rightarrow> AppState \<Rightarrow> AppState" where
  "saveReminder p s =
     (let title' = trim (newReminder s)
      in if title' = [] then s
         else
           let nextReminderDate = getNextReminderDate (timeZone p) (dateNow p) (selectedTime s);
               effectiveNoteType = (if showNotes s then noteType_state s else Text);
               effectiveCustomRepeatMinutes =
                 (if repeatOption s = Custom
                  then Some (max (customRepeatMinutes_state s) MIN_CUSTOM_REPEAT_MINUTES)
                  else None);
               s1 = (if repeatOption s = Custom
                        \<and> customRepeatMinutes_state s < MIN_CUSTOM_REPEAT_MINUTES
                     then Alert_alert (fst customRepeatAdvisory) (snd customRepeatAdvisory) s
                     else s);
               notes' = (if showNotes s \<and> effectiveNoteType = Text then trim (newNotes s) else []);
               todoItems' = (if showNotes s \<and> effectiveNoteType = Todo then draftTodoItems s else [])
           in if showNotes s \<and> effectiveNoteType = Todo \<and> length todoItems' = 0
              then Alert_alert (fst addTodoItemsPrompt) (snd addTodoItemsPrompt) s1
              else if truthy (editingReminderId s)
              then
                (let rid = the (editingReminderId s);
                     existingReminder = find (\<lambda>reminder. id_r reminder = rid) (reminders s1);
                     live = (case existingReminder of
                               None \<Rightarrow> notifications s1
                             | Some existing \<Rightarrow>
                                 if truthy (notificationId existing)
                                 then cancelNotification (the (notificationId existing)) (notifications s1)
                                 else notifications s1);
                     (notificationId', live') =
                        scheduleReminderNotification (createdId p) rid title' notes' nextReminderDate
                          (repeatOption s) effectiveCustomRepeatMinutes live
                 in closeComposer
                      (s1\<lparr>notifications := live',
                          reminders :=
                            map (\<lambda>reminder.
                                   if id_r reminder = rid
                                   then reminder\<lparr>title := title',
                                                 reminderTime := toISOString nextReminderDate,
                                                 repeat := repeatOption s,
                                                 customRepeatMinutes := effectiveCustomRepeatMinutes,
                                                 noteType := effectiveNoteType,
                                                 notes_r := notes',
                                                 todoItems := todoItems',
                                                 notificationId := Some notificationId'\<rparr>
                                   else reminder)
                                (reminders s1)\<rparr>))
              else
                (let reminderId = showInt (idNow p) @ ''-'' @ title';
                     (notificationId', live') =
                        scheduleReminderNotification (createdId p) reminderId title' notes'
                          nextReminderDate (repeatOption s) effectiveCustomRepeatMinutes
                          (notifications s1)
                 in closeComposer
                      (s1\<lparr>notifications := live',
                          reminders :=
                            reminders s1 @
                              [\<lparr>id_r = reminderId,
                                title = title',
                                reminderTime = toISOString nextReminderDate,
                                repeat = repeatOption s,
                                customRepeatMinutes = effectiveCustomRepeatMinutes,
                                noteType = effectiveNoteType,
                                notes_r = notes',
                                todoItems = todoItems',
                                notificationId = Some notificationId',
                                completed = False\<rparr>]\<rparr>)))"

text \<open>The other mutations of the collection.\<close>

definition toggleReminder :: "string \<Rightarrow> AppState \<Rightarrow> AppState" where
  "toggleReminder rid s =
     s\<lparr>reminders :=
         map (\<lambda>reminder.
                if id_r reminder = rid then reminder\<lparr>completed := \<not> completed reminder\<rparr>
                else reminder)
             (reminders s)\<rparr>"

definition toggleTodoItemFromReminder :: "string \<Rightarrow> string \<Rightarrow> AppState \<Rightarrow> AppState" where
  "toggleTodoItemFromReminder reminderId todoItemId s =
     s\<lparr>reminders :=
         map (\<lambda>reminder.
                if id_r reminder = reminderId
                then reminder\<lparr>todoItems :=
                       map (\<lambda>item. if id_t item = todoItemId then item\<lparr>done_t := \<not> done_t item\<rparr>
                                    else item)
                           (todoItems reminder)\<rparr>
                else reminder)
             (reminders s)\<rparr>"

definition removeReminder :: "string \<Rightarrow> AppState \<Rightarrow> AppState" where
  "removeReminder rid s =
     (let reminderToRemove = find (\<lambda>reminder. id_r reminder = rid) (reminders s);
          live = (case reminderToRemove of
                    None \<Rightarrow> notifications s
                  | Some r \<Rightarrow>
                      if truthy (notificationId r)
                      then cancelNotification (the (notificationId r)) (notifications s)
                      else notifications s)
      in s\<lparr>notifications := live,
           reminders := filter (\<lambda>reminder. id_r reminder \<noteq> rid) (reminders s)\<rparr>)"


section \<open>Persistence\<close>

text \<open>
  The collection is stored under one key as \<^verbatim>\<open>JSON.stringify(reminders)\<close> and read back
  with \<^verbatim>\<open>JSON.parse\<close>. The JSON text in between is not modelled: a stored record is what
  \<^verbatim>\<open>JSON.parse\<close> yields, typed as the code types it (\<^verbatim>\<open>Partial<Reminder>\<close>): every
  property is either missing (or null) or a value of its type. The properties \<^verbatim>\<open>repeat\<close>
  and \<^verbatim>\<open>noteType\<close> are kept as the strings found, since the loader compares them with the
  values it knows.
\<close>

record StoredReminder =
  id_p :: "string option"
  title_p :: "string option"
  reminderTime_p :: "string option"
  repeat_p :: "string option"
  customRepeatMinutes_p :: "int option"
  noteType_p :: "string option"
  notes_p :: "string option"
  todoItems_p :: "TodoItem list option"
  notificationId_p :: "string option"
  completed_p :: "bool option"

text \<open>
  The item under the storage key as \<^verbatim>\<open>loadReminders\<close> meets it: no value (or the empty
  string); a text on which \<^verbatim>\<open>JSON.parse\<close> or the traversal of its result throws; or a list
  of records.
\<close>

datatype StoredValue = NoValue | Unparsable | Records "StoredReminder list"

fun repeatString :: "RepeatOption \<Rightarrow> string" where
  "repeatString Once = ''once''"
| "repeatString Daily = ''daily''"
| "repeatString Weekly = ''weekly''"
| "repeatString Custom = ''custom''"

fun noteTypeString :: "NoteType \<Rightarrow> string" where
  "noteTypeString Todo = ''todo''"
| "noteTypeString Text = ''text''"

text \<open>
  What \<^verbatim>\<open>JSON.parse\<close> reads back from the \<^verbatim>\<open>JSON.stringify\<close> of a reminder: every
  property with its value, except that a property whose value is \<^verbatim>\<open>undefined\<close> is not
  written.
\<close>

definition JSON_stringify :: "Reminder \<Rightarrow> StoredReminder" where
  "JSON_stringify r =
     \<lparr>id_p = Some (id_r r),
      title_p = Some (title r),
      reminderTime_p = Some (reminderTime r),
      repeat_p = Some (repeatString (repeat r)),
      customRepeatMinutes_p = customRepeatMinutes r,
      noteType_p = Some (noteTypeString (noteType r)),
      notes_p = Some (notes_r r),
      todoItems_p = Some (todoItems r),
      notificationId_p = notificationId r,
      completed_p = Some (completed r)\<rparr>"

text \<open>
  The effect that follows every change of the collection: once the initial load has completed,
  the whole collection is written.
\<close>

definition persistReminders :: "AppState \<Rightarrow> StoredValue \<Rightarrow> StoredValue" where
  "persistReminders s stored =
     (if \<not> hasLoadedReminders s then stored
      else Records (map JSON_stringify (reminders s)))"

text \<open>
  \<^verbatim>\<open>parseLegacyTodoItems\<close>. The id of an item starts with the clock and a random number;
  \<open>stamp k\<close> is that text (\<^verbatim>\<open>`${Date.now()}-${Math.random()}`\<close>) for the \<open>k\<close>-th item.
\<close>

definition parseLegacyTodoItems :: "(nat \<Rightarrow> string) \<Rightarrow> string \<Rightarrow> TodoItem list" where
  "parseLegacyTodoItems stamp notes' =
     map (\<lambda>(k, item). \<lparr>id_t = stamp k @ ''-'' @ item, text_t = item, done_t = False\<rparr>)
         (enumerate 0
            (filter (\<lambda>item. item \<noteq> [])
               (map trim (splitString CHR 0x0A notes'))))"

text \<open>
  What the platform answers while the stored records are read: for the record at position
  \<open>i\<close>, the text of \<^verbatim>\<open>`${Date.now()}-${Math.random()}`\<close>, the clock read by
  \<^verbatim>\<open>new Date()\<close>, and the stamps of the items of a migrated note.
\<close>

record LoadPlatform =
  recordStamp :: "nat \<Rightarrow> string"
  recordClock :: "nat \<Rightarrow> Date"
  itemStamp :: "nat \<Rightarrow> nat \<Rightarrow> string"

text \<open>The function that \<^verbatim>\<open>loadReminders\<close> maps over the stored records.\<close>

definition parseReminder :: "LoadPlatform \<Rightarrow> nat \<Rightarrow> StoredReminder \<Rightarrow> Reminder" where
  "parseReminder lp i reminder =
     \<lparr>id_r = (case id_p reminder of Some v \<Rightarrow> v | None \<Rightarrow> recordStamp lp i),
      title = (case title_p reminder of Some v \<Rightarrow> v | None \<Rightarrow> ''Reminder''),
      reminderTime =
        (case reminderTime_p reminder of Some v \<Rightarrow> v | None \<Rightarrow> toISOString (recordClock lp i)),
      repeat =
        (if repeat_p reminder = Some ''daily'' then Daily
         else if repeat_p reminder = Some ''weekly'' then Weekly
         else if repeat_p reminder = Some ''custom'' then Custom
         else Once),
      customRepeatMinutes = customRepeatMinutes_p reminder,
      noteType = (if noteType_p reminder = Some ''todo'' then Todo else Text),
      notes_r = (case notes_p reminder of Some v \<Rightarrow> v | None \<Rightarrow> []),
      todoItems =
        (if noteType_p reminder = Some ''todo''
         then (case todoItems_p reminder of
                 Some items \<Rightarrow> items
               | None \<Rightarrow>
                   parseLegacyTodoItems (itemStamp lp i)
                     (case notes_p reminder of Some v \<Rightarrow> v | None \<Rightarrow> []))
         else []),
      notificationId = notificationId_p reminder,
      completed = (case completed_p reminder of Some v \<Rightarrow> v | None \<Rightarrow> False)\<rparr>"

definition parsedReminders :: "LoadPlatform \<Rightarrow> StoredReminder list \<Rightarrow> Reminder list" where
  "parsedReminders lp records = map (\<lambda>(i, reminder). parseReminder lp i reminder) (enumerate 0 records)"

definition loadReminders :: "LoadPlatform \<Rightarrow> StoredValue \<Rightarrow> AppState \<Rightarrow> AppState" where
  "loadReminders lp storedValue s =
     (case storedValue of
        NoValue \<Rightarrow> s\<lparr>hasLoadedReminders := True\<rparr>
      | Unparsable \<Rightarrow> s\<lparr>hasLoadedReminders := True\<rparr>
      | Records records \<Rightarrow>
          s\<lparr>reminders := parsedReminders lp records, hasLoadedReminders := True\<rparr>)"


section \<open>The initial state\<close>

text \<open>
  The state in which the component is mounted (the initial values of its state variables;
  \<open>selectedTime\<close> starts as the clock), on a device with no live notification.
\<close>

definition initialState :: "Date \<Rightarrow> AppState" where
  "initialState now =
     \<lparr>isAddSectionVisible = False,
      newReminder = [],
      showNotes = False,
      newNotes = [],
      newTodoItemText = [],
      draftTodoItems = [],
      noteType_state = Text,
      repeatOption = Once,
      customRepeatMinutes_state = 30,
      reminders = [],
      hasLoadedReminders = False,
      selectedTime = now,
      editingReminderId = None,
      notifications = [],
      alerts = []\<rparr>"

section \<open>A save, seen from its result\<close>

text \<open>
  The two validations of \<^verbatim>\<open>saveReminder\<close> pass: the trimmed title is not empty, and the
  draft is not a checklist without items.
\<close>

definition saveAccepted :: "AppState \<Rightarrow> bool" where
  "saveAccepted s =
     (trim (newReminder s) \<noteq> []
      \<and> \<not> (showNotes s \<and> noteType_state s = Todo \<and> draftTodoItems s = []))"

text \<open>
  The save takes the edit branch for the id \<open>rid\<close>: \<^verbatim>\<open>editingReminderId\<close> holds it and it
  is not the empty string.
\<close>

definition isEditing :: "AppState \<Rightarrow> string \<Rightarrow> bool" where
  "isEditing s rid = (editingReminderId s = Some rid \<and> rid \<noteq> [])"

text \<open>
  The state after the advisory about a custom repeat below the minimum, if one is shown.
\<close>

definition advised :: "AppState \<Rightarrow> AppState" where
  "advised s =
     (if repeatOption s = Custom \<and> customRepeatMinutes_state s < MIN_CUSTOM_REPEAT_MINUTES
      then Alert_alert (fst customRepeatAdvisory) (snd customRepeatAdvisory) s
      else s)"

text \<open>
  The fields that a save writes into a reminder, from the composer; the id and the completion
  flag are kept.
\<close>

definition draftFields :: "Platform \<Rightarrow> AppState \<Rightarrow> Reminder \<Rightarrow> Reminder" where
  "draftFields p s reminder =
     reminder\<lparr>title := trim (newReminder s),
       reminderTime := toISOString (getNextReminderDate (timeZone p) (dateNow p) (selectedTime s)),
       repeat := repeatOption s,
       customRepeatMinutes :=
         (if repeatOption s = Custom
          then Some (max (customRepeatMinutes_state s) MIN_CUSTOM_REPEAT_MINUTES)
          else None),
       noteType := (if showNotes s then noteType_state s else Text),
       notes_r := (if showNotes s \<and> noteType_state s = Text then trim (newNotes s) else []),
       todoItems := (if showNotes s \<and> noteType_state s = Todo then draftTodoItems s else []),
       notificationId := Some (createdId p)\<rparr>"

text \<open>
  The notification that a save schedules for the reminder \<open>rid\<close>.
\<close>

definition scheduledNotification :: "Platform \<Rightarrow> AppState \<Rightarrow> string \<Rightarrow> Notification" where
  "scheduledNotification p s rid =
     \<lparr>id_n = createdId p,
      title_n = ''Reminder'',
      body = trim (newReminder s),
      data_reminderId = rid,
      trigger =
        buildTrigger (getNextReminderDate (timeZone p) (dateNow p) (selectedTime s))
          (repeatOption s)
          (if repeatOption s = Custom
           then Some (max (customRepeatMinutes_state s) MIN_CUSTOM_REPEAT_MINUTES)
           else None)\<rparr>"

text \<open>
  The live notifications after the conditional cancel of the edit branch (and of
  \<^verbatim>\<open>removeReminder\<close>): the notification of the first reminder with the id is cancelled, if
  that reminder exists and has a notification id.
\<close>

definition cancelExisting :: "string \<Rightarrow> AppState \<Rightarrow> Notification list" where
  "cancelExisting rid s =
     (case find (\<lambda>reminder. id_r reminder = rid) (reminders s) of
        None \<Rightarrow> notifications s
      | Some existing \<Rightarrow>
          if truthy (notificationId existing)
          then cancelNotification (the (notificationId existing)) (notifications s)
          else notifications s)"

text \<open>
  The reminder \<open>r\<close> is one that the save of \<open>s\<close> has written: the save is accepted, and
  \<open>r\<close> is a reminder with the edited id in the new collection or, for a new reminder, the
  one appended.
\<close>

definition savedBy :: "Platform \<Rightarrow> AppState \<Rightarrow> Reminder \<Rightarrow> bool" where
  "savedBy p s r =
     (saveAccepted s
      \<and> (if truthy (editingReminderId s)
         then r \<in> set (reminders (saveReminder p s)) \<and> id_r r = the (editingReminderId s)
         else r = last (reminders (saveReminder p s))))"

text \<open>
  The live notifications that carry the reminder id \<open>rid\<close>.
\<close>

definition liveFor :: "string \<Rightarrow> Notification list \<Rightarrow> Notification list" where
  "liveFor rid live = filter (\<lambda>n. data_reminderId n = rid) live"

text \<open>
  The link between the collection and the device: live notifications have distinct, non-empty
  ids, and a live notification that carries the id of a reminder of the collection is the one
  this reminder refers to. A notification may carry an id that no reminder has.
\<close>

definition notificationsOwned :: "AppState \<Rightarrow> bool" where
  "notificationsOwned s =
     (distinct (map id_n (notifications s))
      \<and> (\<forall>n\<in>set (notifications s).
           id_n n \<noteq> []
           \<and> (\<forall>r\<in>set (reminders s).
                 id_r r = data_reminderId n \<longrightarrow> notificationId r = Some (id_n n))))"

section \<open>Reachable states\<close>

text \<open>
  In every reminder of the collection, a text note has no checklist items.
\<close>

definition checklistOnlyForTodo :: "Reminder list \<Rightarrow> bool" where
  "checklistOnlyForTodo rs = (\<forall>r\<in>set rs. noteType r = Text \<longrightarrow> todoItems r = [])"

text \<open>
  The states that the screen and the device can be in, when the initial load completes before
  the user acts and every operation runs to completion before the next one starts. The app is
  launched for the first time with nothing stored; the user changes the composer; saves; toggles
  a reminder or a checklist item; deletes a reminder; a notification leaves the device (a
  one-shot trigger has fired, or the user dismissed it); the app is restarted, the device keeping
  its notifications and the storage holding what was last written. The notification library
  never answers with an empty id, and the id made for a new reminder is not yet in use.
\<close>

inductive reachable :: "AppState \<Rightarrow> bool" where
  launch: "reachable (loadReminders lp NoValue (initialState now))"
| compose:
    "reachable s \<Longrightarrow>
     reachable (s\<lparr>isAddSectionVisible := visible, newReminder := title', showNotes := shown,
                  newNotes := notes', newTodoItemText := itemText, draftTodoItems := items,
                  noteType_state := kind, repeatOption := policy,
                  customRepeatMinutes_state := minutes, selectedTime := time,
                  editingReminderId := editing\<rparr>)"
| save:
    "reachable s \<Longrightarrow> createdId p \<noteq> [] \<Longrightarrow>
     (\<not> truthy (editingReminderId s) \<longrightarrow>
        showInt (idNow p) @ ''-'' @ trim (newReminder s) \<notin> id_r ` set (reminders s)
        \<and> showInt (idNow p) @ ''-'' @ trim (newReminder s)
            \<notin> data_reminderId ` set (notifications s)) \<Longrightarrow>
     reachable (saveReminder p s)"
| toggle: "reachable s \<Longrightarrow> reachable (toggleReminder rid s)"
| toggleTodo: "reachable s \<Longrightarrow> reachable (toggleTodoItemFromReminder rid tid s)"
| remove: "reachable s \<Longrightarrow> reachable (removeReminder rid s)"
| delivered: "reachable s \<Longrightarrow> reachable (s\<lparr>notifications := filter keep (notifications s)\<rparr>)"
| restart:
    "reachable s \<Longrightarrow> hasLoadedReminders s \<Longrightarrow>
     reachable (loadReminders lp (persistReminders s stored)
                  ((initialState now)\<lparr>notifications := notifications s\<rparr>))"

section \<open>Examples\<close>

text \<open>Concrete reminders, stored records and platform answers, used to exercise the theorems.\<close>

definition teaReminder :: Reminder where
  "teaReminder =
     \<lparr>id_r = ''1793696400000-Tea'', title = ''Tea'', reminderTime = ''2026-11-04T09:00:00.000Z'',
      repeat = Custom, customRepeatMinutes = Some 45, noteType = Text, notes_r = ''green'',
      todoItems = [], notificationId = Some ''n1'', completed = False\<rparr>"

definition shoppingReminder :: Reminder where
  "shoppingReminder =
     \<lparr>id_r = ''1793696400001-Shop'', title = ''Shop'', reminderTime = ''2026-11-04T18:30:00.000Z'',
      repeat = Daily, customRepeatMinutes = None, noteType = Todo, notes_r = [],
      todoItems = [\<lparr>id_t = ''t1'', text_t = ''buy milk'', done_t = True\<rparr>],
      notificationId = None, completed = True\<rparr>"

definition legacyRecord :: "string \<Rightarrow> StoredReminder" where
  "legacyRecord notes' =
     \<lparr>id_p = Some ''7'', title_p = Some ''Errands'', reminderTime_p = None, repeat_p = None,
      customRepeatMinutes_p = None, noteType_p = Some ''todo'', notes_p = Some notes',
      todoItems_p = None, notificationId_p = None, completed_p = None\<rparr>"

definition fixedLoadPlatform :: LoadPlatform where
  "fixedLoadPlatform =
     \<lparr>recordStamp = (\<lambda>i. ''1793696400000-0.25''),
      recordClock = (\<lambda>i. 1793696400000),
      itemStamp = (\<lambda>i k. ''1793696400000-0.75'')\<rparr>"

definition examplePlatform :: Platform where
  "examplePlatform =
     \<lparr>timeZone = fixedOffset 0, dateNow = 1793696400000, idNow = 1793696400000, createdId = ''n2''\<rparr>"


definition blankTodoDraft :: AppState where
  "blankTodoDraft =
     (initialState 1793610037500)
       \<lparr>isAddSectionVisible := True, newReminder := ''  '', showNotes := True,
        noteType_state := Todo\<rparr>"

definition emptyTodoDraft :: AppState where
  "emptyTodoDraft =
     (initialState 1793610037500)
       \<lparr>isAddSectionVisible := True, newReminder := ''Shop'', showNotes := True,
        noteType_state := Todo, reminders := [teaReminder], hasLoadedReminders := True\<rparr>"

definition ghostEdit :: AppState where
  "ghostEdit =
     (initialState 1793610037500)
       \<lparr>isAddSectionVisible := True, newReminder := ''Tea'',
        reminders := [shoppingReminder], hasLoadedReminders := True,
        editingReminderId := Some ''1793696400000-Tea''\<rparr>"

definition teaNotification :: Notification where
  "teaNotification =
     \<lparr>id_n = ''n1'', title_n = ''Reminder'', body = ''Tea'',
      data_reminderId = ''1793696400000-Tea'', trigger = IntervalTrigger 45 MINUTES\<rparr>"

definition lowCustomEdit :: AppState where
  "lowCustomEdit =
     (initialState 1793610037500)
       \<lparr>isAddSectionVisible := True, newReminder := ''Tea'', showNotes := True,
        newNotes := ''green'', repeatOption := Custom, customRepeatMinutes_state := 10,
        reminders := [teaReminder, shoppingReminder], hasLoadedReminders := True,
        editingReminderId := Some ''1793696400000-Tea'',
        notifications := [teaNotification]\<rparr>"

definition dailyDraft :: AppState where
  "dailyDraft =
     (initialState 1793610037500)
       \<lparr>isAddSectionVisible := True, newReminder := ''Shop'', repeatOption := Daily\<rparr>"

section \<open>Facts about the calendar and the clock\<close>

lemma div_lo: "0 < k \<Longrightarrow> k * (a div k) \<le> (a::int)"
  using pos_mod_sign [of k a] mult_div_mod_eq [of k a] by linarith

lemma div_hi: "0 < k \<Longrightarrow> (a::int) < k * (a div k) + k"
  using pos_mod_bound [of k a] mult_div_mod_eq [of k a] by linarith

lemma DayFromYear_offset:
  "DayFromYear (1970 + k) = 365 * k + (k + 1) div 4 - (k + 69) div 100 + (k + 369) div 400"
  unfolding DayFromYear_def by (simp add: add.commute)

lemma estimate_nonneg:
  assumes "0 \<le> d"
  shows "DayFromYear (1970 + d div 366) \<le> d"
proof -
  define k where "k = d div 366"
  define a b c where "a = (k + 1) div 4" and "b = (k + 69) div 100" and "c = (k + 369) div 400"
  have k0: "0 \<le> k" using assms by (simp add: k_def pos_imp_zdiv_nonneg_iff)
  have kd: "366 * k \<le> d" unfolding k_def by (rule div_lo) simp
  have a: "4 * a \<le> k + 1" unfolding a_def by (rule div_lo) simp
  have c: "400 * c \<le> k + 369" unfolding c_def by (rule div_lo) simp
  have b: "0 \<le> b" unfolding b_def using k0 by (simp add: pos_imp_zdiv_nonneg_iff)
  have small: "k = 0 \<or> k = 1 \<or> 2 \<le> k" using k0 by linarith
  have "a - b + c \<le> k"
    using small
  proof (elim disjE)
    assume "k = 0" then show ?thesis unfolding a_def b_def c_def by simp
  next
    assume "k = 1" then show ?thesis unfolding a_def b_def c_def by simp
  next
    assume "2 \<le> k" with a b c show ?thesis by linarith
  qed
  moreover have "DayFromYear (1970 + k) = 365 * k + a - b + c"
    unfolding a_def b_def c_def by (rule DayFromYear_offset)
  ultimately have "DayFromYear (1970 + k) \<le> 366 * k" by linarith
  with kd show ?thesis unfolding k_def by linarith
qed

lemma estimate_neg:
  assumes "d < 0"
  shows "DayFromYear (1970 + d div 365) \<le> d"
proof -
  define k where "k = d div 365"
  define a b c where "a = (k + 1) div 4" and "b = (k + 69) div 100" and "c = (k + 369) div 400"
  have k0: "k < 0" using assms by (simp add: k_def neg_imp_zdiv_neg_iff)
  have kd: "365 * k \<le> d" unfolding k_def by (rule div_lo) simp
  have a: "4 * a \<le> k + 1" unfolding a_def by (rule div_lo) simp
  have c: "400 * c \<le> k + 369" unfolding c_def by (rule div_lo) simp
  have b: "k + 69 < 100 * b + 100" unfolding b_def by (rule div_hi) simp
  have "a - b + c \<le> 0"
  proof (cases "-31 \<le> k")
    case True
    have "0 \<le> b" unfolding b_def using True by (simp add: pos_imp_zdiv_nonneg_iff)
    with a c True k0 show ?thesis by linarith
  next
    case False
    with a b c show ?thesis by linarith
  qed
  moreover have "DayFromYear (1970 + k) = 365 * k + a - b + c"
    unfolding a_def b_def c_def by (rule DayFromYear_offset)
  ultimately have "DayFromYear (1970 + k) \<le> 365 * k" by linarith
  with kd show ?thesis unfolding k_def by linarith
qed

lemma yearSearch_upper: "d < DayFromYear (yearSearch d y + 1)"
  by (induction d y rule: yearSearch.induct) (subst yearSearch.simps, simp)

lemma yearSearch_lower: "DayFromYear y \<le> d \<Longrightarrow> DayFromYear (yearSearch d y) \<le> d"
  by (induction d y rule: yearSearch.induct) (subst yearSearch.simps, simp)

text \<open>The search finds the year of ECMA-262: the one whose days include day \<open>Day t\<close>.\<close>

lemma YearFromTime_bounds:
  "DayFromYear (YearFromTime t) \<le> Day t \<and> Day t < DayFromYear (YearFromTime t + 1)"
proof (cases "0 \<le> Day t")
  case True
  then show ?thesis
    unfolding YearFromTime_def Let_def
    using estimate_nonneg [of "Day t"] by (simp add: yearSearch_lower yearSearch_upper)
next
  case False
  then show ?thesis
    unfolding YearFromTime_def Let_def
    using estimate_neg [of "Day t"] by (simp add: yearSearch_lower yearSearch_upper)
qed

lemma MonthFromTime_range: "0 \<le> MonthFromTime t \<and> MonthFromTime t \<le> 11"
  unfolding MonthFromTime_def Let_def by simp

text \<open>
  Asking for the date \<open>k\<close> days after the current day of the month, in the current month and
  year, gives the day number \<open>k\<close> days later, whatever the length of the month.
\<close>

lemma MakeDay_DateFromTime:
  "MakeDay (YearFromTime t) (MonthFromTime t) (DateFromTime t + k) = Day t + k"
proof -
  have d: "MonthFromTime t div 12 = 0" and m: "MonthFromTime t mod 12 = MonthFromTime t"
    using MonthFromTime_range [of t] by simp_all
  show ?thesis
    unfolding MakeDay_def Let_def d m
    by (simp add: DateFromTime_def DayWithinYear_def InLeapYear_def)
qed

lemma Day_TimeWithinDay: "MakeDate (Day t) (TimeWithinDay t) = t"
  unfolding MakeDate_def Day_def TimeWithinDay_def by simp

subsection \<open>The local time zone\<close>

lemma offsetFrom_offsets: "offsetFrom off ts t \<in> set (off # map snd ts)"
  by (induction off ts t rule: offsetFrom.induct) auto

text \<open>\<open>possibleInstants\<close> lists exactly the instants at which the local clock shows \<open>t\<close>.\<close>

lemma possibleInstants_set: "set (possibleInstants z t) = {u. LocalTime z u = t}"
proof -
  define C where "C = set (map (\<lambda>off. t - off) (baseOffset z # map snd (transitions z)))"
  have "u \<in> C" if "LocalTime z u = t" for u
  proof -
    have "u = t - offsetAt z u" using that unfolding LocalTime_def by simp
    moreover have "offsetAt z u \<in> set (baseOffset z # map snd (transitions z))"
      unfolding offsetAt_def by (rule offsetFrom_offsets)
    ultimately have "u \<in> (\<lambda>off. t - off) ` set (baseOffset z # map snd (transitions z))"
      by (rule image_eqI)
    then show ?thesis unfolding C_def by (simp only: set_map)
  qed
  moreover have "set (possibleInstants z t) = {u \<in> C. LocalTime z u = t}"
    unfolding possibleInstants_def C_def by (simp only: set_sort set_remdups set_filter)
  ultimately show ?thesis by blast
qed

lemma possibleInstants_sorted: "sorted (possibleInstants z t)"
  unfolding possibleInstants_def by simp

text \<open>
  A local time that is shown stands for the first instant at which it is shown, and the local
  clock shows it then.
\<close>

lemma UTC_shown:
  assumes "possibleInstants z t \<noteq> []"
  shows "UTC z t = hd (possibleInstants z t)" and "LocalTime z (UTC z t) = t"
proof -
  obtain u us where p: "possibleInstants z t = u # us"
    using assms by (cases "possibleInstants z t") simp_all
  have "u \<in> set (possibleInstants z t)" unfolding p by simp
  then have l: "LocalTime z u = t" unfolding possibleInstants_set by simp
  then have "t - offsetAt z u = u" unfolding LocalTime_def by simp
  then have u: "UTC z t = u" unfolding UTC_def p by simp
  show "UTC z t = hd (possibleInstants z t)" unfolding u p by simp
  show "LocalTime z (UTC z t) = t" unfolding u by (rule l)
qed

lemma UTC_first:
  assumes "LocalTime z u = t"
  shows "UTC z t \<le> u"
proof -
  have m: "u \<in> set (possibleInstants z t)" using assms unfolding possibleInstants_set by simp
  then have n: "possibleInstants z t \<noteq> []" by auto
  obtain v vs where p: "possibleInstants z t = v # vs"
    using n by (cases "possibleInstants z t") simp_all
  have "sorted (v # vs)" using possibleInstants_sorted [of z t] unfolding p .
  then have "v \<le> u" using m unfolding p by auto
  then show ?thesis using UTC_shown(1) [OF n] unfolding p by simp
qed

lemma shown_possibleInstants: "LocalTime z u = t \<Longrightarrow> possibleInstants z t \<noteq> []"
  using possibleInstants_set [of z t] by auto

lemma possibleInstants_shown:
  assumes "possibleInstants z t \<noteq> []"
  obtains u where "LocalTime z u = t"
proof -
  from assms obtain u where "u \<in> set (possibleInstants z t)"
    by (cases "possibleInstants z t") auto
  then have "LocalTime z u = t" unfolding possibleInstants_set by simp
  then show thesis by (rule that)
qed

text \<open>
  From an instant on, the offset stays the same for ever, or up to a transition whose last
  local time is listed.
\<close>

lemma offsetFrom_segment:
  "(\<forall>u'\<ge>u. offsetFrom off ts u' = offsetFrom off ts u)
   \<or> (\<exists>e. e + offsetFrom off ts u - 1 \<in> set (lastLocalTimes off ts) \<and> u < e
          \<and> (\<forall>u'. u \<le> u' \<and> u' < e \<longrightarrow> offsetFrom off ts u' = offsetFrom off ts u))"
proof (induction off ts u rule: offsetFrom.induct)
  case (1 off t)
  then show ?case by simp
next
  case (2 off start off' rest t)
  show ?case
  proof (cases "t < start")
    case True
    then have "start + offsetFrom off ((start, off') # rest) t - 1
                 \<in> set (lastLocalTimes off ((start, off') # rest))
               \<and> t < start
               \<and> (\<forall>u'. t \<le> u' \<and> u' < start
                     \<longrightarrow> offsetFrom off ((start, off') # rest) u'
                           = offsetFrom off ((start, off') # rest) t)"
      by simp
    then show ?thesis by blast
  next
    case False
    then have r: "offsetFrom off ((start, off') # rest) u' = offsetFrom off' rest u'"
      if "t \<le> u'" for u'
      using that by simp
    have r0: "offsetFrom off ((start, off') # rest) t = offsetFrom off' rest t"
      by (rule r) simp
    from 2 [OF False] show ?thesis
    proof (elim disjE exE conjE)
      assume s: "\<forall>u'\<ge>t. offsetFrom off' rest u' = offsetFrom off' rest t"
      have "\<forall>u'\<ge>t. offsetFrom off ((start, off') # rest) u'
                           = offsetFrom off ((start, off') # rest) t"
      proof (intro allI impI)
        fix u' assume u': "t \<le> u'"
        have "offsetFrom off' rest u' = offsetFrom off' rest t" using s u' by blast
        then show "offsetFrom off ((start, off') # rest) u'
                     = offsetFrom off ((start, off') # rest) t"
          unfolding r [OF u'] r0 .
      qed
      then show ?thesis by (rule disjI1)
    next
      fix e
      assume e: "e + offsetFrom off' rest t - 1 \<in> set (lastLocalTimes off' rest)" "t < e"
        "\<forall>u'. t \<le> u' \<and> u' < e \<longrightarrow> offsetFrom off' rest u' = offsetFrom off' rest t"
      have "e + offsetFrom off ((start, off') # rest) t - 1
                 \<in> set (lastLocalTimes off ((start, off') # rest))"
        unfolding r0 using e(1) by simp
      moreover have "\<forall>u'. t \<le> u' \<and> u' < e
                     \<longrightarrow> offsetFrom off ((start, off') # rest) u'
                           = offsetFrom off ((start, off') # rest) t"
      proof (intro allI impI)
        fix u' assume u': "t \<le> u' \<and> u' < e"
        then have "offsetFrom off' rest u' = offsetFrom off' rest t" using e(3) by blast
        moreover have "t \<le> u'" using u' by simp
        ultimately show "offsetFrom off ((start, off') # rest) u'
                     = offsetFrom off ((start, off') # rest) t"
          unfolding r0 using r by simp
      qed
      ultimately show ?thesis using e(2) by blast
    qed
  qed
qed

lemma sorted_le_last: "sorted xs \<Longrightarrow> x \<in> set xs \<Longrightarrow> x \<le> last (xs :: int list)"
  by (induction xs) auto

text \<open>
  Below a local time \<open>t\<close> that is skipped, every local time that is shown is followed by one
  on the list which is shown too.
\<close>

lemma skipped_after_last:
  assumes skipped: "possibleInstants z t = []" and shown: "LocalTime z u = t'" and "t' < t"
  shows "\<exists>c \<in> set (lastLocalTimes (baseOffset z) (transitions z)).
           t' \<le> c \<and> c < t \<and> possibleInstants z c \<noteq> []"
proof -
  define d where "d = offsetAt z u"
  have t': "t' = u + d" using shown unfolding LocalTime_def d_def by simp
  have never: "LocalTime z v \<noteq> t" for v
    using skipped shown_possibleInstants by blast
  from offsetFrom_segment [of u "baseOffset z" "transitions z"]
  have "(\<forall>u'\<ge>u. offsetAt z u' = d)
        \<or> (\<exists>e. e + d - 1 \<in> set (lastLocalTimes (baseOffset z) (transitions z)) \<and> u < e
              \<and> (\<forall>u'. u \<le> u' \<and> u' < e \<longrightarrow> offsetAt z u' = d))"
    unfolding offsetAt_def d_def .
  then show ?thesis
  proof (elim disjE exE conjE)
    assume "\<forall>u'\<ge>u. offsetAt z u' = d"
    then have "offsetAt z (u + (t - t')) = d" using assms(3) by simp
    then have "LocalTime z (u + (t - t')) = t" unfolding LocalTime_def t' by simp
    then show ?thesis using never by blast
  next
    fix e
    assume e: "e + d - 1 \<in> set (lastLocalTimes (baseOffset z) (transitions z))" "u < e"
      "\<forall>u'. u \<le> u' \<and> u' < e \<longrightarrow> offsetAt z u' = d"
    have "offsetAt z (e - 1) = d" using e(2,3) by simp
    then have "LocalTime z (e - 1) = e + d - 1" unfolding LocalTime_def by simp
    then have s: "possibleInstants z (e + d - 1) \<noteq> []" by (rule shown_possibleInstants)
    have le: "t' \<le> e + d - 1" unfolding t' using e(2) by simp
    have "e + d - 1 < t"
    proof (rule ccontr)
      assume "\<not> e + d - 1 < t"
      then have "u \<le> u + (t - t') \<and> u + (t - t') < e" using assms(3) unfolding t' by simp
      then have "offsetAt z (u + (t - t')) = d" using e(3) by blast
      then have "LocalTime z (u + (t - t')) = t" unfolding LocalTime_def t' by simp
      then show False using never by blast
    qed
    then show ?thesis using e(1) le s by blast
  qed
qed

text \<open>
  So a skipped local time is read as ECMA-262 prescribes: with the offset at the last instant of
  \<open>tBefore\<close>, the latest local time before it that is shown.
\<close>

lemma UTC_skipped:
  assumes "possibleInstants z t = []"
  shows "\<exists>tBefore. tBefore < t \<and> possibleInstants z tBefore \<noteq> []
           \<and> (\<forall>t'. t' < t \<and> possibleInstants z t' \<noteq> [] \<longrightarrow> t' \<le> tBefore)
           \<and> UTC z t = t - offsetAt z (last (possibleInstants z tBefore))"
proof -
  define cs where "cs = sort (filter (\<lambda>tBefore. tBefore < t \<and> possibleInstants z tBefore \<noteq> [])
                                (lastLocalTimes (baseOffset z) (transitions z)))"
  have mem: "c \<in> set cs = (c \<in> set (lastLocalTimes (baseOffset z) (transitions z))
                            \<and> c < t \<and> possibleInstants z c \<noteq> [])" for c
    unfolding cs_def by auto
  have "cs \<noteq> []"
  proof (cases "transitions z")
    case Nil
    then have "LocalTime z (t - baseOffset z) = t"
      unfolding LocalTime_def offsetAt_def by simp
    then show ?thesis using assms shown_possibleInstants by blast
  next
    case (Cons a rest)
    obtain start off' where a: "a = (start, off')" by (cases a)
    define c where "c = start + baseOffset z - 1"
    have before: "LocalTime z u = u + baseOffset z" if "u < start" for u
      unfolding LocalTime_def offsetAt_def Cons a using that by simp
    have "LocalTime z (start - 1) = c"
      unfolding c_def using before [of "start - 1"] by simp
    then have s: "possibleInstants z c \<noteq> []" by (rule shown_possibleInstants)
    have "c < t"
    proof (rule ccontr)
      assume "\<not> c < t"
      then have "t - baseOffset z < start" unfolding c_def by simp
      then have "LocalTime z (t - baseOffset z) = t" using before by simp
      then show False using assms shown_possibleInstants by blast
    qed
    moreover have "c \<in> set (lastLocalTimes (baseOffset z) (transitions z))"
      unfolding Cons a c_def by simp
    ultimately have "c \<in> set cs" using s mem by blast
    then show ?thesis by auto
  qed
  then obtain tb tbs where cons: "cs = tb # tbs" by (cases cs) simp_all
  define tBefore where "tBefore = last cs"
  have "tBefore \<in> set cs" unfolding tBefore_def using \<open>cs \<noteq> []\<close> by (rule last_in_set)
  then have 1: "tBefore < t" "possibleInstants z tBefore \<noteq> []" using mem by blast+
  have srt: "sorted cs" unfolding cs_def by simp
  have 2: "t' \<le> tBefore" if "t' < t" "possibleInstants z t' \<noteq> []" for t'
  proof -
    from that(2) obtain u where "LocalTime z u = t'" by (rule possibleInstants_shown)
    from skipped_after_last [OF assms this that(1)]
    obtain c where "c \<in> set cs" "t' \<le> c" using mem by blast
    moreover have "c \<le> last cs" using srt \<open>c \<in> set cs\<close> by (rule sorted_le_last)
    ultimately show ?thesis unfolding tBefore_def by simp
  qed
  have "UTC z t = t - offsetAt z (last (possibleInstants z tBefore))"
    unfolding UTC_def assms cs_def [symmetric] tBefore_def cons by simp
  then show ?thesis using 1 2 by blast
qed

text \<open>In a zone without transitions every local time is shown once.\<close>

lemma LocalTime_fixedOffset: "LocalTime (fixedOffset tza) t = t + tza"
  unfolding LocalTime_def offsetAt_def fixedOffset_def by simp

lemma possibleInstants_fixedOffset: "possibleInstants (fixedOffset tza) t = [t - tza]"
  unfolding possibleInstants_def LocalTime_fixedOffset by (simp add: fixedOffset_def)

lemma UTC_fixedOffset: "UTC (fixedOffset tza) t = t - tza"
  unfolding UTC_def possibleInstants_fixedOffset by (simp add: offsetAt_def fixedOffset_def)

subsection \<open>The next trigger\<close>

text \<open>
  Setting the date to the day after puts the local clock one day on, and takes the instant that
  stands for that local time.
\<close>

lemma setDate_next_day: "setDate z d (getDate z d + 1) = UTC z (LocalTime z d + msPerDay)"
proof -
  have "MakeDate (Day (LocalTime z d) + 1) (TimeWithinDay (LocalTime z d))
        = MakeDate (Day (LocalTime z d)) (TimeWithinDay (LocalTime z d)) + msPerDay"
    unfolding MakeDate_def by (simp add: algebra_simps)
  then show ?thesis
    unfolding setDate_def getDate_def Let_def MakeDay_DateFromTime
    by (simp add: Day_TimeWithinDay)
qed





lemma wallClock_sum:
  "wallClock day h m = day * msPerDay + h * msPerHour + m * msPerMinute"
  unfolding wallClock_def MakeDate_def MakeTime_def by simp

lemma wallClock_next_day: "wallClock (day + 1) h m = wallClock day h m + msPerDay"
  unfolding wallClock_sum by (simp add: algebra_simps)

lemma setHours_wall_clock:
  "setHours z d h m 0 0 = wallClockInstant z (Day (LocalTime z d)) h m"
  unfolding setHours_def wallClockInstant_def wallClock_def by (rule refl)

text \<open>
  When the local clock shows the selected time of day today, the code computes the instant of
  the next-instant rule.
\<close>

lemma getNextReminderDate_nextInstant:
  assumes "possibleInstants z
             (wallClock (Day (LocalTime z now)) (getHours z selected) (getMinutes z selected))
           \<noteq> []"
  shows "getNextReminderDate z now selected
           = nextInstant z (getHours z selected) (getMinutes z selected) now"
proof -
  have "setDate z (wallClockInstant z day h m) (getDate z (wallClockInstant z day h m) + 1)
          = wallClockInstant z (day + 1) h m"
    if "possibleInstants z (wallClock day h m) \<noteq> []" for day h m
    unfolding setDate_next_day
    unfolding wallClockInstant_def UTC_shown(2) [OF that] wallClock_next_day by (rule refl)
  from this [OF assms] show ?thesis
    unfolding getNextReminderDate_def nextInstant_def Let_def getTime_def setHours_wall_clock
    by simp
qed


subsection \<open>A zone without transitions\<close>

lemma wallClockInstant_fixedOffset:
  "wallClockInstant (fixedOffset tza) day h m = wallClock day h m - tza"
  unfolding wallClockInstant_def UTC_fixedOffset by (rule refl)

lemma getNextReminderDate_fixedOffset:
  "getNextReminderDate (fixedOffset tza) now selected
     = nextInstant (fixedOffset tza)
         (getHours (fixedOffset tza) selected) (getMinutes (fixedOffset tza) selected) now"
  by (rule getNextReminderDate_nextInstant) (simp add: possibleInstants_fixedOffset)



lemma next_example:
  "getNextReminderDate (fixedOffset 0) 1793696400000 1793610037500 = 1793782800000"
  unfolding getNextReminderDate_fixedOffset
  by (simp add: nextInstant_def wallClockInstant_fixedOffset wallClock_sum getHours_def
      getMinutes_def HourFromTime_def MinFromTime_def LocalTime_fixedOffset Day_def
      msPerDay_def msPerHour_def msPerMinute_def)

subsection \<open>Across a change of the clock\<close>










subsection \<open>The distance of the next trigger\<close>



section \<open>Saving a reminder\<close>

lemma advised_fields [simp]:
  "reminders (advised s) = reminders s"
  "notifications (advised s) = notifications s"
  "editingReminderId (advised s) = editingReminderId s"
  "alerts (advised s) =
     alerts s @ (if repeatOption s = Custom \<and> customRepeatMinutes_state s < MIN_CUSTOM_REPEAT_MINUTES
                 then [customRepeatAdvisory] else [])"
  unfolding advised_def Alert_alert_def by simp_all

lemma saveReminder_blank_title:
  "trim (newReminder s) = [] \<Longrightarrow> saveReminder p s = s"
  unfolding saveReminder_def by simp

lemma saveReminder_empty_checklist:
  assumes "trim (newReminder s) \<noteq> []" "showNotes s" "noteType_state s = Todo" "draftTodoItems s = []"
  shows "saveReminder p s = Alert_alert (fst addTodoItemsPrompt) (snd addTodoItemsPrompt) (advised s)"
  using assms unfolding saveReminder_def advised_def Let_def by simp

lemma effective_todo:
  "(showNotes s \<and> (if showNotes s then noteType_state s else Text) = Todo)
     = (showNotes s \<and> noteType_state s = Todo)"
  by simp

lemma effective_todo_and:
  "(showNotes s \<and> (if showNotes s then noteType_state s else Text) = Todo \<and> X)
     = (showNotes s \<and> noteType_state s = Todo \<and> X)"
  by auto

lemma effective_text:
  "(showNotes s \<and> (if showNotes s then noteType_state s else Text) = Text)
     = (showNotes s \<and> noteType_state s = Text)"
  by simp

lemma saveReminder_edit:
  assumes "saveAccepted s" "isEditing s rid"
  shows "saveReminder p s =
     closeComposer
       ((advised s)\<lparr>notifications :=
            createTriggerNotification (scheduledNotification p s rid) (cancelExisting rid s),
          reminders :=
            map (\<lambda>reminder. if id_r reminder = rid then draftFields p s reminder else reminder)
                (reminders s)\<rparr>)"
proof -
  have t: "trim (newReminder s) \<noteq> []"
    and c: "\<not> (showNotes s \<and> noteType_state s = Todo \<and> draftTodoItems s = [])"
    and e: "truthy (editingReminderId s)" "the (editingReminderId s) = rid"
    using assms unfolding saveAccepted_def isEditing_def truthy_def by simp_all
  have c': "\<not> (showNotes s \<and> noteType_state s = Todo
              \<and> length (if showNotes s \<and> noteType_state s = Todo then draftTodoItems s else []) = 0)"
    using c by simp
  have a: "reminders (advised s) = reminders s" "notifications (advised s) = notifications s"
    by simp_all
  show ?thesis
    unfolding saveReminder_def Let_def scheduleReminderNotification_def effective_todo_and
      effective_todo effective_text
      draftFields_def scheduledNotification_def cancelExisting_def advised_def [symmetric]
      a prod.case
    using t c' e by (simp only: if_False if_True)
qed

lemma saveReminder_create:
  assumes "saveAccepted s" "\<not> truthy (editingReminderId s)"
  shows "saveReminder p s =
     closeComposer
       ((advised s)\<lparr>notifications :=
            createTriggerNotification
              (scheduledNotification p s (showInt (idNow p) @ ''-'' @ trim (newReminder s)))
              (notifications s),
          reminders :=
            reminders s @
              [draftFields p s
                 \<lparr>id_r = showInt (idNow p) @ ''-'' @ trim (newReminder s), title = [],
                  reminderTime = [], repeat = Once, customRepeatMinutes = None, noteType = Text,
                  notes_r = [], todoItems = [], notificationId = None, completed = False\<rparr>]\<rparr>)"
proof -
  have t: "trim (newReminder s) \<noteq> []"
    and c: "\<not> (showNotes s \<and> noteType_state s = Todo \<and> draftTodoItems s = [])"
    using assms unfolding saveAccepted_def by simp_all
  have c': "\<not> (showNotes s \<and> noteType_state s = Todo
              \<and> length (if showNotes s \<and> noteType_state s = Todo then draftTodoItems s else []) = 0)"
    using c by simp
  have a: "reminders (advised s) = reminders s" "notifications (advised s) = notifications s"
    by simp_all
  show ?thesis
    unfolding saveReminder_def Let_def scheduleReminderNotification_def effective_todo_and
      effective_todo effective_text
      draftFields_def scheduledNotification_def advised_def [symmetric]
      a prod.case
    using t c' assms(2) by (simp only: if_False if_True) simp
qed

lemma closeComposer_fields [simp]:
  "reminders (closeComposer s) = reminders s"
  "notifications (closeComposer s) = notifications s"
  "alerts (closeComposer s) = alerts s"
  "hasLoadedReminders (closeComposer s) = hasLoadedReminders s"
  "editingReminderId (closeComposer s) = None"
  unfolding closeComposer_def by simp_all

lemma draftFields_id [simp]: "id_r (draftFields p s r) = id_r r"
  unfolding draftFields_def by simp

lemma truthy_isEditing: "truthy (editingReminderId s) = isEditing s (the (editingReminderId s))"
  unfolding truthy_def isEditing_def by (cases "editingReminderId s") simp_all

lemma last_createTriggerNotification [simp]: "last (createTriggerNotification n live) = n"
  unfolding createTriggerNotification_def by simp

lemma savedBy_accepted: "savedBy p s r \<Longrightarrow> saveAccepted s"
  unfolding savedBy_def by simp

lemma savedBy_draft:
  assumes "savedBy p s r"
  shows "\<exists>r0. r = draftFields p s r0"
proof (cases "truthy (editingReminderId s)")
  case True
  define rid where "rid = the (editingReminderId s)"
  have e: "isEditing s rid" using True unfolding rid_def truthy_isEditing .
  have rs: "reminders (saveReminder p s)
              = map (\<lambda>reminder. if id_r reminder = rid then draftFields p s reminder else reminder)
                    (reminders s)"
    using saveReminder_edit [OF savedBy_accepted [OF assms] e, of p] by simp
  have m: "r \<in> set (reminders (saveReminder p s))" and i: "id_r r = rid"
    using assms True unfolding savedBy_def rid_def by simp_all
  from m obtain x where x: "r = (if id_r x = rid then draftFields p s x else x)"
    unfolding rs set_map by (rule imageE)
  show ?thesis
  proof (cases "id_r x = rid")
    case True
    with x have "r = draftFields p s x" by simp
    then show ?thesis by (rule exI)
  next
    case False
    with x have "r = x" by simp
    with False i show ?thesis by simp
  qed
next
  case False
  then show ?thesis
    using assms saveReminder_create [OF savedBy_accepted [OF assms] False, of p]
    unfolding savedBy_def by auto
qed

lemma savedBy_notification:
  assumes "savedBy p s r"
  shows "last (notifications (saveReminder p s)) = scheduledNotification p s (id_r r)"
proof (cases "truthy (editingReminderId s)")
  case True
  define rid where "rid = the (editingReminderId s)"
  have e: "isEditing s rid" using True unfolding rid_def truthy_isEditing .
  have "id_r r = rid" using assms True unfolding savedBy_def rid_def by simp
  then show ?thesis
    using saveReminder_edit [OF savedBy_accepted [OF assms] e, of p] by simp
next
  case False
  have "r = last (reminders (saveReminder p s))"
    using assms False unfolding savedBy_def by simp
  then have "id_r r = showInt (idNow p) @ ''-'' @ trim (newReminder s)"
    using saveReminder_create [OF savedBy_accepted [OF assms] False, of p] by simp
  then show ?thesis
    using saveReminder_create [OF savedBy_accepted [OF assms] False, of p] by simp
qed

lemma saveReminder_alerts:
  assumes "saveAccepted s"
  shows "alerts (saveReminder p s) = alerts (advised s)"
proof (cases "truthy (editingReminderId s)")
  case True
  then have "isEditing s (the (editingReminderId s))" unfolding truthy_isEditing .
  from saveReminder_edit [OF assms this, of p] show ?thesis by simp
next
  case False
  from saveReminder_create [OF assms False, of p] show ?thesis by simp
qed

lemma buildTrigger_cases:
  "buildTrigger d Once cm = TimestampTrigger (getTime d) True None"
  "buildTrigger d Daily cm = TimestampTrigger (getTime d) True (Some DAILY)"
  "buildTrigger d Weekly cm = TimestampTrigger (getTime d) True (Some WEEKLY)"
  "buildTrigger d Custom (Some minutes) = IntervalTrigger minutes MINUTES"
  "buildTrigger d Custom None = IntervalTrigger MIN_CUSTOM_REPEAT_MINUTES MINUTES"
  unfolding buildTrigger_def by simp_all

text \<open>
  Claim C3. For every reminder \<open>r\<close> written by a save, the notification scheduled last carries
  its id, is the one \<open>r\<close> refers to, and has the trigger built from the computed next instant,
  the repeat policy of \<open>r\<close> and its \<open>customRepeatMinutes\<close>. That trigger is: for once, a
  timestamp trigger at the instant with no repeat frequency; for daily, one at the instant with
  frequency \<open>DAILY\<close> (a period of 1 day); for weekly, one with frequency \<open>WEEKLY\<close> (7 days);
  for custom, an interval trigger of \<open>customRepeatMinutes\<close> minutes, the same whatever the
  instant is.
\<close>

theorem saved_reminder_trigger:
  assumes "savedBy p s r"
  shows "data_reminderId (last (notifications (saveReminder p s))) = id_r r
    \<and> notificationId r = Some (id_n (last (notifications (saveReminder p s))))
    \<and> trigger (last (notifications (saveReminder p s)))
        = buildTrigger (getNextReminderDate (timeZone p) (dateNow p) (selectedTime s))
            (repeat r) (customRepeatMinutes r)
    \<and> buildTrigger d Once cm = TimestampTrigger (getTime d) True None
    \<and> buildTrigger d Daily cm = TimestampTrigger (getTime d) True (Some DAILY)
    \<and> periodDays DAILY = Some 1
    \<and> buildTrigger d Weekly cm = TimestampTrigger (getTime d) True (Some WEEKLY)
    \<and> periodDays WEEKLY = Some 7
    \<and> buildTrigger d Custom (Some minutes) = IntervalTrigger minutes MINUTES
    \<and> (repeat r = Custom \<longrightarrow>
         customRepeatMinutes r = Some (max (customRepeatMinutes_state s) MIN_CUSTOM_REPEAT_MINUTES))
    \<and> buildTrigger d Custom cm = buildTrigger d' Custom cm"
proof -
  obtain r0 where r: "r = draftFields p s r0" using savedBy_draft [OF assms] by blast
  have n: "last (notifications (saveReminder p s)) = scheduledNotification p s (id_r r)"
    by (rule savedBy_notification [OF assms])
  have "buildTrigger d Custom cm = buildTrigger d' Custom cm"
    unfolding buildTrigger_def by simp
  then show ?thesis
    unfolding n r by (simp add: buildTrigger_cases scheduledNotification_def draftFields_def)
qed

text \<open>
  Claim C4. For every reminder written by a save with repeat custom, the stored
  \<open>customRepeatMinutes\<close> is the larger of the composer's value and 30, so at least 30. A value
  below 30 is stored as 30 and the advisory alert is shown (and the save goes through); a value
  of 30 or more is stored as it is, with no alert.
\<close>

theorem custom_repeat_clamped:
  assumes "savedBy p s r" and "repeat r = Custom"
  shows "customRepeatMinutes r = Some (max (customRepeatMinutes_state s) MIN_CUSTOM_REPEAT_MINUTES)
    \<and> (case customRepeatMinutes r of Some minutes \<Rightarrow> 30 \<le> minutes | None \<Rightarrow> False)
    \<and> (customRepeatMinutes_state s < 30 \<longrightarrow>
         customRepeatMinutes r = Some 30
         \<and> alerts (saveReminder p s) = alerts s @ [customRepeatAdvisory])
    \<and> (30 \<le> customRepeatMinutes_state s \<longrightarrow>
         customRepeatMinutes r = Some (customRepeatMinutes_state s)
         \<and> alerts (saveReminder p s) = alerts s)"
proof -
  obtain r0 where r: "r = draftFields p s r0" using savedBy_draft [OF assms(1)] by blast
  have c: "repeatOption s = Custom" using assms(2) unfolding r draftFields_def by simp
  have a: "alerts (saveReminder p s) = alerts (advised s)"
    by (rule saveReminder_alerts [OF savedBy_accepted [OF assms(1)]])
  show ?thesis
    unfolding a r using c by (simp add: draftFields_def MIN_CUSTOM_REPEAT_MINUTES_def)
qed

lemma length_filter_distinct_key:
  "distinct (map f xs) \<Longrightarrow> length (filter (\<lambda>x. f x = a) xs) \<le> 1"
proof (induction xs)
  case Nil
  then show ?case by simp
next
  case (Cons x xs)
  show ?case
  proof (cases "f x = a")
    case True
    have "f x \<notin> f ` set xs" using Cons.prems by simp
    with True have "\<forall>y\<in>set xs. f y \<noteq> a" by (metis imageI)
    then have "filter (\<lambda>x. f x = a) xs = []" by (simp add: filter_empty_conv)
    with True show ?thesis by simp
  next
    case False
    with Cons show ?thesis by simp
  qed
qed

lemma liveFor_same_key:
  assumes "\<forall>n\<in>set live. data_reminderId n = rid \<longrightarrow> id_n n = nid"
  shows "liveFor rid live = liveFor rid (filter (\<lambda>n. id_n n = nid) live)"
  unfolding liveFor_def using assms by (induction live) auto


lemma owned_at_most_one:
  assumes "notificationsOwned s" and "r \<in> set (reminders s)"
  shows "length (liveFor (id_r r) (notifications s)) \<le> 1"
proof (cases "notificationId r")
  case None
  with assms have "\<forall>n\<in>set (notifications s). data_reminderId n \<noteq> id_r r"
    unfolding notificationsOwned_def by fastforce
  then have "liveFor (id_r r) (notifications s) = []"
    unfolding liveFor_def by (simp add: filter_empty_conv)
  then show ?thesis by simp
next
  case (Some nid)
  with assms have k: "\<forall>n\<in>set (notifications s). data_reminderId n = id_r r \<longrightarrow> id_n n = nid"
    unfolding notificationsOwned_def by fastforce
  have "length (liveFor (id_r r) (notifications s))
          = length (liveFor (id_r r) (filter (\<lambda>n. id_n n = nid) (notifications s)))"
    using liveFor_same_key [OF k] by simp
  also have "\<dots> \<le> length (filter (\<lambda>n. id_n n = nid) (notifications s))"
    unfolding liveFor_def by (rule length_filter_le)
  also have "\<dots> \<le> 1"
    using assms(1) unfolding notificationsOwned_def by (intro length_filter_distinct_key) simp
  finally show ?thesis .
qed


lemma cancelExisting_subset: "set (cancelExisting rid s) \<subseteq> set (notifications s)"
  unfolding cancelExisting_def cancelNotification_def by (auto split: option.splits)

lemma cancelExisting_distinct:
  "distinct (map id_n (notifications s)) \<Longrightarrow> distinct (map id_n (cancelExisting rid s))"
  unfolding cancelExisting_def cancelNotification_def
  by (auto split: option.splits simp: distinct_map_filter)

lemma cancelExisting_clears:
  assumes "notificationsOwned s"
    and "find (\<lambda>reminder. id_r reminder = rid) (reminders s) = Some existing"
  shows "liveFor rid (cancelExisting rid s) = []"
proof -
  have e: "existing \<in> set (reminders s)" "id_r existing = rid"
    using assms(2) by (auto simp: find_Some_iff in_set_conv_nth)
  have k: "\<forall>n\<in>set (notifications s). data_reminderId n = rid
             \<longrightarrow> notificationId existing = Some (id_n n) \<and> id_n n \<noteq> []"
    using assms(1) e unfolding notificationsOwned_def by fastforce
  show ?thesis
  proof (cases "truthy (notificationId existing)")
    case True
    then have "cancelExisting rid s
                 = filter (\<lambda>n. id_n n \<noteq> the (notificationId existing)) (notifications s)"
      using assms(2) unfolding cancelExisting_def cancelNotification_def by simp
    then show ?thesis
      unfolding liveFor_def using k by (auto simp: filter_empty_conv)
  next
    case False
    then have "\<forall>n\<in>set (notifications s). data_reminderId n \<noteq> rid"
      using k unfolding truthy_def by (auto split: option.splits)
    moreover have "cancelExisting rid s = notifications s"
      using False assms(2) unfolding cancelExisting_def by simp
    ultimately show ?thesis
      unfolding liveFor_def by (simp add: filter_empty_conv)
  qed
qed



lemma distinct_createTriggerNotification:
  "distinct (map id_n live) \<Longrightarrow> distinct (map id_n (createTriggerNotification n live))"
  unfolding createTriggerNotification_def by (auto simp: distinct_map_filter)

lemma scheduledNotification_fields [simp]:
  "id_n (scheduledNotification p s rid) = createdId p"
  "data_reminderId (scheduledNotification p s rid) = rid"
  unfolding scheduledNotification_def by simp_all

lemma draftFields_notificationId [simp]:
  "notificationId (draftFields p s r) = Some (createdId p)"
  unfolding draftFields_def by simp

lemma saveReminder_edit_reminders:
  assumes "saveAccepted s" "isEditing s rid"
  shows "reminders (saveReminder p s)
           = map (\<lambda>reminder. if id_r reminder = rid then draftFields p s reminder else reminder)
                 (reminders s)"
  using saveReminder_edit [OF assms, of p] by simp

lemma saveReminder_edit_notifications:
  assumes "saveAccepted s" "isEditing s rid"
  shows "notifications (saveReminder p s)
           = createTriggerNotification (scheduledNotification p s rid) (cancelExisting rid s)"
  using saveReminder_edit [OF assms, of p] by simp

lemma edited_reminder:
  assumes "r \<in> set (map (\<lambda>reminder. if id_r reminder = rid then draftFields p s reminder else reminder) rs)"
  shows "(id_r r = rid \<and> (\<exists>x\<in>set rs. id_r x = rid \<and> r = draftFields p s x))
         \<or> (id_r r \<noteq> rid \<and> r \<in> set rs)"
proof -
  from assms obtain x where x: "x \<in> set rs"
    and r: "r = (if id_r x = rid then draftFields p s x else x)"
    unfolding set_map by (rule imageE) simp
  show ?thesis
  proof (cases "id_r x = rid")
    case True
    with r have "r = draftFields p s x" by simp
    with True x show ?thesis by auto
  next
    case False
    with r have "r = x" by simp
    with False x show ?thesis by simp
  qed
qed

lemma find_None_ids: "find (\<lambda>reminder. id_r reminder = rid) rs = None \<Longrightarrow> rid \<notin> id_r ` set rs"
  by (auto simp: find_None_iff)

lemma edit_preserves_owned:
  assumes o: "notificationsOwned s" and a: "saveAccepted s" and e: "isEditing s rid"
    and c: "createdId p \<noteq> []"
  shows "notificationsOwned (saveReminder p s)"
proof -
  let ?N = "scheduledNotification p s rid"
  have d: "distinct (map id_n (notifications (saveReminder p s)))"
    unfolding saveReminder_edit_notifications [OF a e]
    using o unfolding notificationsOwned_def
    by (intro distinct_createTriggerNotification cancelExisting_distinct) simp
  have "id_n n \<noteq> [] \<and> (\<forall>r\<in>set (reminders (saveReminder p s)).
          id_r r = data_reminderId n \<longrightarrow> notificationId r = Some (id_n n))"
    if n: "n \<in> set (notifications (saveReminder p s))" for n
  proof (cases "n = ?N")
    case True
    have "notificationId r = Some (createdId p)"
      if "r \<in> set (reminders (saveReminder p s))" "id_r r = rid" for r
    proof -
      from edited_reminder [OF that(1) [unfolded saveReminder_edit_reminders [OF a e]]] that(2)
      obtain x where "r = draftFields p s x" by blast
      then show ?thesis by simp
    qed
    with True c show ?thesis by simp
  next
    case False
    with n have old: "n \<in> set (cancelExisting rid s)"
      unfolding saveReminder_edit_notifications [OF a e] createTriggerNotification_def by simp
    then have n0: "n \<in> set (notifications s)" using cancelExisting_subset by blast
    have "notificationId r = Some (id_n n)"
      if r: "r \<in> set (reminders (saveReminder p s))" and i: "id_r r = data_reminderId n" for r
    proof (cases "id_r r = rid")
      case True
      with edited_reminder [OF r [unfolded saveReminder_edit_reminders [OF a e]]]
      obtain x where "x \<in> set (reminders s)" "id_r x = rid" by blast
      then have "rid \<in> id_r ` set (reminders s)" by blast
      then obtain existing where f: "find (\<lambda>reminder. id_r reminder = rid) (reminders s) = Some existing"
        using find_None_ids [of rid "reminders s"] by (cases "find (\<lambda>reminder. id_r reminder = rid) (reminders s)") blast+
      have "liveFor rid (cancelExisting rid s) = []" by (rule cancelExisting_clears [OF o f])
      then have "\<forall>n'\<in>set (cancelExisting rid s). data_reminderId n' \<noteq> rid"
        unfolding liveFor_def by (simp add: filter_empty_conv)
      with old True i show ?thesis by metis
    next
      case False
      with edited_reminder [OF r [unfolded saveReminder_edit_reminders [OF a e]]]
      have "r \<in> set (reminders s)" by blast
      with o n0 i show ?thesis unfolding notificationsOwned_def by blast
    qed
    moreover have "id_n n \<noteq> []" using o n0 unfolding notificationsOwned_def by blast
    ultimately show ?thesis by blast
  qed
  with d show ?thesis unfolding notificationsOwned_def by blast
qed



lemma advised_hasLoaded [simp]: "hasLoadedReminders (advised s) = hasLoadedReminders s"
  unfolding advised_def Alert_alert_def by simp

lemma Alert_alert_fields [simp]:
  "reminders (Alert_alert h m s) = reminders s"
  "notifications (Alert_alert h m s) = notifications s"
  "hasLoadedReminders (Alert_alert h m s) = hasLoadedReminders s"
  "alerts (Alert_alert h m s) = alerts s @ [(h, m)]"
  unfolding Alert_alert_def by simp_all

text \<open>
  Claim C6, as amended. Saving a checklist draft without items changes neither the collection
  nor the live notifications. When the title is not blank the save stops at the checklist check:
  the state is unchanged but for the alerts, the last of which is the prompt to add items. When the
  title is blank, the save stops before, silently. A save with a blank title changes nothing at
  all.
\<close>

theorem empty_checklist_rejected:
  "(showNotes s \<and> noteType_state s = Todo \<and> draftTodoItems s = []
      \<longrightarrow> reminders (saveReminder p s) = reminders s
        \<and> notifications (saveReminder p s) = notifications s
        \<and> (trim (newReminder s) \<noteq> []
             \<longrightarrow> saveReminder p s
                   = Alert_alert (fst addTodoItemsPrompt) (snd addTodoItemsPrompt) (advised s)
                 \<and> last (alerts (saveReminder p s)) = addTodoItemsPrompt)
        \<and> (trim (newReminder s) = [] \<longrightarrow> alerts (saveReminder p s) = alerts s))
   \<and> (trim (newReminder s) = [] \<longrightarrow> saveReminder p s = s)"
proof (cases "trim (newReminder s) = []")
  case True
  then show ?thesis by (simp add: saveReminder_blank_title)
next
  case False
  show ?thesis
  proof (cases "showNotes s \<and> noteType_state s = Todo \<and> draftTodoItems s = []")
    case True
    then have "saveReminder p s
                 = Alert_alert (fst addTodoItemsPrompt) (snd addTodoItemsPrompt) (advised s)"
      using False by (intro saveReminder_empty_checklist) simp_all
    then show ?thesis using False by simp
  next
    case False
    then show ?thesis using \<open>trim (newReminder s) \<noteq> []\<close> by blast
  qed
qed

text \<open>
  A checklist draft without items, with a title and with a blank title.
\<close>

theorem empty_checklist_rejected_witness:
  "reminders (saveReminder examplePlatform emptyTodoDraft) = [teaReminder]
   \<and> notifications (saveReminder examplePlatform emptyTodoDraft) = []
   \<and> alerts (saveReminder examplePlatform emptyTodoDraft) = [addTodoItemsPrompt]
   \<and> saveReminder examplePlatform blankTodoDraft = blankTodoDraft"
proof -
  have e: "showNotes emptyTodoDraft \<and> noteType_state emptyTodoDraft = Todo
             \<and> draftTodoItems emptyTodoDraft = []"
    and t: "trim (newReminder emptyTodoDraft) \<noteq> []"
    and b: "trim (newReminder blankTodoDraft) = []"
    unfolding emptyTodoDraft_def blankTodoDraft_def initialState_def
    by (simp_all add: trim_def isWhiteSpace_def)
  have f: "reminders emptyTodoDraft = [teaReminder]" "notifications emptyTodoDraft = []"
    "alerts (advised emptyTodoDraft) = []"
    unfolding emptyTodoDraft_def initialState_def by simp_all
  from empty_checklist_rejected [of emptyTodoDraft examplePlatform] e t
  have "reminders (saveReminder examplePlatform emptyTodoDraft) = reminders emptyTodoDraft"
    and "notifications (saveReminder examplePlatform emptyTodoDraft) = notifications emptyTodoDraft"
    and "saveReminder examplePlatform emptyTodoDraft
           = Alert_alert (fst addTodoItemsPrompt) (snd addTodoItemsPrompt) (advised emptyTodoDraft)"
    by blast+
  moreover from empty_checklist_rejected [of blankTodoDraft examplePlatform] b
  have "saveReminder examplePlatform blankTodoDraft = blankTodoDraft" by blast
  ultimately show ?thesis using f by simp
qed

text \<open>
  Claim C6 as stated (every save of an empty checklist is rejected with a user prompt) fails
  when the title is blank as well: the title is checked first, and the save returns without
  any alert.
\<close>

theorem blank_title_empty_checklist_no_prompt:
  "showNotes blankTodoDraft \<and> noteType_state blankTodoDraft = Todo
   \<and> draftTodoItems blankTodoDraft = []
   \<and> alerts (saveReminder examplePlatform blankTodoDraft) = []"
proof -
  have "trim (newReminder blankTodoDraft) = []"
    unfolding blankTodoDraft_def initialState_def by (simp add: trim_def isWhiteSpace_def)
  then have "saveReminder examplePlatform blankTodoDraft = blankTodoDraft"
    by (rule saveReminder_blank_title)
  then show ?thesis unfolding blankTodoDraft_def initialState_def by simp
qed

lemma map_unchanged: "(\<And>x. x \<in> set xs \<Longrightarrow> f x = x) \<Longrightarrow> map f xs = xs"
  by (induction xs) simp_all

text \<open>
  A save that edits an id which no reminder of the collection has leaves the collection as it
  is, and so what is written to storage.
\<close>

lemma edit_unknown_id_keeps_collection:
  assumes "isEditing s rid" and "rid \<notin> id_r ` set (reminders s)"
  shows "reminders (saveReminder p s) = reminders s
    \<and> persistReminders (saveReminder p s) stored = persistReminders s stored"
proof -
  have r: "reminders (saveReminder p s) = reminders s
             \<and> hasLoadedReminders (saveReminder p s) = hasLoadedReminders s"
  proof (cases "saveAccepted s")
    case True
    have "map (\<lambda>reminder. if id_r reminder = rid then draftFields p s reminder else reminder)
              (reminders s) = reminders s"
      using assms(2) by (intro map_unchanged) auto
    then show ?thesis
      using saveReminder_edit [OF True assms(1), of p] by simp
  next
    case False
    show ?thesis
    proof (cases "trim (newReminder s) = []")
      case True
      then show ?thesis by (simp add: saveReminder_blank_title)
    next
      case nonblank: False
      with False have "showNotes s" "noteType_state s = Todo" "draftTodoItems s = []"
        unfolding saveAccepted_def by simp_all
      from saveReminder_empty_checklist [OF nonblank this, of p] show ?thesis by simp
    qed
  qed
  then show ?thesis unfolding persistReminders_def by simp
qed

lemma showNat_digit: "n < 10 \<Longrightarrow> showNat n = [digit n]"
  by (simp add: showNat.simps)

lemma ghostEdit_saved:
  "saveReminder examplePlatform ghostEdit =
     closeComposer
       (ghostEdit\<lparr>notifications :=
            [scheduledNotification examplePlatform ghostEdit ''1793696400000-Tea''],
          reminders := [shoppingReminder]\<rparr>)"
proof -
  have a: "saveAccepted ghostEdit"
    unfolding saveAccepted_def ghostEdit_def initialState_def
    by (simp add: trim_def isWhiteSpace_def)
  have e: "isEditing ghostEdit ''1793696400000-Tea''"
    unfolding isEditing_def ghostEdit_def by simp
  have c: "cancelExisting ''1793696400000-Tea'' ghostEdit = []"
    unfolding cancelExisting_def ghostEdit_def initialState_def shoppingReminder_def by simp
  have d: "advised ghostEdit = ghostEdit"
    unfolding advised_def ghostEdit_def initialState_def by simp
  have m: "map (\<lambda>reminder. if id_r reminder = ''1793696400000-Tea''
                           then draftFields examplePlatform ghostEdit reminder else reminder)
             (reminders ghostEdit) = [shoppingReminder]"
    unfolding ghostEdit_def shoppingReminder_def by simp
  show ?thesis
    unfolding saveReminder_edit [OF a e] c d m createTriggerNotification_def by simp
qed

text \<open>
  Claim C7 fails in the code. The reminder being edited was deleted from the list while the
  composer was open: the composer edits the id \<open>1793696400000-Tea\<close>, the collection holds
  another reminder only, and no notification is live. The save is not a no-op. It finds no
  reminder with the id, so it skips the cancel, and nothing else: it schedules a notification
  that carries the unknown id. The collection is left as it is, so the id of the new
  notification is stored in no reminder, where the screen looks for the notification to
  cancel. No alert is shown. Removing or toggling the same unknown id changes nothing at all.
\<close>

theorem edit_unknown_id_schedules_notification:
  "isEditing ghostEdit ''1793696400000-Tea''
   \<and> ''1793696400000-Tea'' \<notin> id_r ` set (reminders ghostEdit)
   \<and> notifications ghostEdit = []
   \<and> map data_reminderId (notifications (saveReminder examplePlatform ghostEdit))
       = [''1793696400000-Tea'']
   \<and> map id_n (notifications (saveReminder examplePlatform ghostEdit)) = [''n2'']
   \<and> reminders (saveReminder examplePlatform ghostEdit) = [shoppingReminder]
   \<and> map notificationId (reminders (saveReminder examplePlatform ghostEdit)) = [None]
   \<and> alerts (saveReminder examplePlatform ghostEdit) = alerts ghostEdit
   \<and> saveReminder examplePlatform ghostEdit \<noteq> ghostEdit
   \<and> removeReminder ''1793696400000-Tea'' ghostEdit = ghostEdit
   \<and> toggleReminder ''1793696400000-Tea'' ghostEdit = ghostEdit"
proof -
  have "notifications (saveReminder examplePlatform ghostEdit) \<noteq> notifications ghostEdit"
    unfolding ghostEdit_saved by (simp add: ghostEdit_def initialState_def)
  then have "saveReminder examplePlatform ghostEdit \<noteq> ghostEdit" by metis
  moreover have "isEditing ghostEdit ''1793696400000-Tea''"
    unfolding isEditing_def ghostEdit_def by simp
  moreover have "''1793696400000-Tea'' \<notin> id_r ` set (reminders ghostEdit)"
    unfolding ghostEdit_def shoppingReminder_def by simp
  moreover have "removeReminder ''1793696400000-Tea'' ghostEdit = ghostEdit"
    unfolding removeReminder_def ghostEdit_def initialState_def shoppingReminder_def by simp
  moreover have "toggleReminder ''1793696400000-Tea'' ghostEdit = ghostEdit"
    unfolding toggleReminder_def ghostEdit_def initialState_def shoppingReminder_def by simp
  moreover have "map notificationId [shoppingReminder] = [None]"
    unfolding shoppingReminder_def by simp
  moreover have "id_n (scheduledNotification examplePlatform ghostEdit ''1793696400000-Tea'')
                   = ''n2''"
    unfolding scheduledNotification_def examplePlatform_def by simp
  moreover have "data_reminderId
                   (scheduledNotification examplePlatform ghostEdit ''1793696400000-Tea'')
                   = ''1793696400000-Tea''"
    unfolding scheduledNotification_def by simp
  ultimately show ?thesis
    unfolding ghostEdit_saved
    by (simp add: closeComposer_def ghostEdit_def initialState_def)
qed

lemma lowCustomEdit_accepted: "saveAccepted lowCustomEdit"
  unfolding saveAccepted_def lowCustomEdit_def initialState_def
  by (simp add: trim_def isWhiteSpace_def)

lemma lowCustomEdit_editing: "isEditing lowCustomEdit ''1793696400000-Tea''"
  unfolding isEditing_def lowCustomEdit_def by simp

lemma lowCustomEdit_reminders:
  "reminders (saveReminder examplePlatform lowCustomEdit)
     = [draftFields examplePlatform lowCustomEdit teaReminder, shoppingReminder]"
  unfolding saveReminder_edit_reminders [OF lowCustomEdit_accepted lowCustomEdit_editing]
  by (simp add: lowCustomEdit_def teaReminder_def shoppingReminder_def)


text \<open>
  An edit that sets a custom repeat of 10 minutes.
\<close>

theorem custom_repeat_clamped_witness:
  "customRepeatMinutes (hd (reminders (saveReminder examplePlatform lowCustomEdit))) = Some 30
   \<and> alerts (saveReminder examplePlatform lowCustomEdit) = [customRepeatAdvisory]"
proof -
  define r where "r = hd (reminders (saveReminder examplePlatform lowCustomEdit))"
  have r: "r = draftFields examplePlatform lowCustomEdit teaReminder"
    unfolding r_def lowCustomEdit_reminders by simp
  have "truthy (editingReminderId lowCustomEdit)"
    and "the (editingReminderId lowCustomEdit) = ''1793696400000-Tea''"
    unfolding truthy_def lowCustomEdit_def by simp_all
  moreover have "r \<in> set (reminders (saveReminder examplePlatform lowCustomEdit))"
    unfolding lowCustomEdit_reminders r by simp
  moreover have "id_r r = ''1793696400000-Tea''"
    unfolding r by (simp add: teaReminder_def)
  ultimately have s: "savedBy examplePlatform lowCustomEdit r"
    unfolding savedBy_def using lowCustomEdit_accepted by simp
  have c: "repeat r = Custom"
    unfolding r draftFields_def lowCustomEdit_def by simp
  have l: "customRepeatMinutes_state lowCustomEdit < 30" "alerts lowCustomEdit = []"
    unfolding lowCustomEdit_def initialState_def by simp_all
  from custom_repeat_clamped [OF s c] l
  have "customRepeatMinutes r = Some 30
    \<and> alerts (saveReminder examplePlatform lowCustomEdit) = alerts lowCustomEdit @ [customRepeatAdvisory]"
    by blast
  then show ?thesis using l unfolding r_def by simp
qed


text \<open>
  A new daily reminder, saved at 09:00:00 on 2026-11-03 (UTC) with 09:00 selected.
\<close>

theorem saved_reminder_trigger_witness:
  "trigger (last (notifications (saveReminder examplePlatform dailyDraft)))
     = TimestampTrigger 1793782800000 True (Some DAILY)
   \<and> notificationId (last (reminders (saveReminder examplePlatform dailyDraft))) = Some ''n2''
   \<and> data_reminderId (last (notifications (saveReminder examplePlatform dailyDraft)))
     = id_r (last (reminders (saveReminder examplePlatform dailyDraft)))"
proof -
  define r where "r = last (reminders (saveReminder examplePlatform dailyDraft))"
  have a: "saveAccepted dailyDraft"
    unfolding saveAccepted_def dailyDraft_def initialState_def
    by (simp add: trim_def isWhiteSpace_def)
  have n: "\<not> truthy (editingReminderId dailyDraft)"
    unfolding truthy_def dailyDraft_def initialState_def by simp
  have s: "savedBy examplePlatform dailyDraft r"
    unfolding savedBy_def r_def using a n by simp
  have "repeat r = Daily"
    unfolding r_def saveReminder_create [OF a n]
    by (simp add: draftFields_def dailyDraft_def)
  moreover have "getNextReminderDate (timeZone examplePlatform) (dateNow examplePlatform)
                   (selectedTime dailyDraft) = 1793782800000"
    unfolding examplePlatform_def dailyDraft_def initialState_def
    using next_example by simp
  moreover have "id_n (last (notifications (saveReminder examplePlatform dailyDraft))) = ''n2''"
    unfolding saveReminder_create [OF a n] by (simp add: examplePlatform_def)
  ultimately show ?thesis
    using saved_reminder_trigger [OF s] unfolding r_def
    by (simp add: buildTrigger_cases getTime_def)
qed

lemma initial_owned: "notificationsOwned (initialState now)"
  unfolding notificationsOwned_def initialState_def by simp

lemma rejected_preserves_owned:
  assumes "notificationsOwned s" and "\<not> saveAccepted s"
  shows "notificationsOwned (saveReminder p s)"
proof (cases "trim (newReminder s) = []")
  case True
  with assms(1) show ?thesis by (simp add: saveReminder_blank_title)
next
  case False
  with assms(2) have "showNotes s" "noteType_state s = Todo" "draftTodoItems s = []"
    unfolding saveAccepted_def by simp_all
  from saveReminder_empty_checklist [OF False this, of p] assms(1) show ?thesis
    unfolding notificationsOwned_def by simp
qed

lemma create_preserves_owned:
  assumes o: "notificationsOwned s" and a: "saveAccepted s"
    and e: "\<not> truthy (editingReminderId s)" and c: "createdId p \<noteq> []"
    and fresh: "showInt (idNow p) @ ''-'' @ trim (newReminder s) \<notin> id_r ` set (reminders s)"
      "showInt (idNow p) @ ''-'' @ trim (newReminder s) \<notin> data_reminderId ` set (notifications s)"
  shows "notificationsOwned (saveReminder p s)"
proof -
  define rid where "rid = showInt (idNow p) @ ''-'' @ trim (newReminder s)"
  define r where "r = draftFields p s
                 \<lparr>id_r = rid, title = [],
                  reminderTime = [], repeat = Once, customRepeatMinutes = None, noteType = Text,
                  notes_r = [], todoItems = [], notificationId = None, completed = False\<rparr>"
  have ns: "notifications (saveReminder p s)
              = createTriggerNotification (scheduledNotification p s rid) (notifications s)"
    and rs: "reminders (saveReminder p s) = reminders s @ [r]"
    using saveReminder_create [OF a e, of p] unfolding rid_def r_def by simp_all
  have r: "id_r r = rid" "notificationId r = Some (createdId p)" unfolding r_def by simp_all
  have d: "distinct (map id_n (notifications (saveReminder p s)))"
    unfolding ns using o unfolding notificationsOwned_def
    by (intro distinct_createTriggerNotification) simp
  have "id_n n \<noteq> [] \<and> (\<forall>x\<in>set (reminders (saveReminder p s)).
          id_r x = data_reminderId n \<longrightarrow> notificationId x = Some (id_n n))"
    if n: "n \<in> set (notifications (saveReminder p s))" for n
  proof (cases "n = scheduledNotification p s rid")
    case True
    have "notificationId x = Some (createdId p)"
      if "x \<in> set (reminders (saveReminder p s))" "id_r x = rid" for x
    proof -
      have "x \<in> set (reminders s) \<or> x = r" using that(1) unfolding rs by auto
      moreover have "x \<notin> set (reminders s)"
        using that(2) fresh(1) unfolding rid_def by (metis imageI)
      ultimately show ?thesis using r by blast
    qed
    with True c show ?thesis by simp
  next
    case False
    with n have n0: "n \<in> set (notifications s)"
      unfolding ns createTriggerNotification_def by simp
    then have "data_reminderId n \<noteq> rid" using fresh(2) unfolding rid_def by (metis imageI)
    with o n0 r show ?thesis unfolding notificationsOwned_def rs by auto
  qed
  with d show ?thesis unfolding notificationsOwned_def by blast
qed

lemma removeReminder_preserves_owned:
  assumes "notificationsOwned s"
  shows "notificationsOwned (removeReminder rid s)"
proof -
  have n: "notifications (removeReminder rid s) = cancelExisting rid s"
    and r: "reminders (removeReminder rid s) = filter (\<lambda>reminder. id_r reminder \<noteq> rid) (reminders s)"
    unfolding removeReminder_def cancelExisting_def Let_def by simp_all
  have "distinct (map id_n (cancelExisting rid s))"
    using assms unfolding notificationsOwned_def by (intro cancelExisting_distinct) simp
  moreover have "set (cancelExisting rid s) \<subseteq> set (notifications s)"
    by (rule cancelExisting_subset)
  ultimately show ?thesis
    using assms unfolding notificationsOwned_def n r by auto
qed

lemma removeReminder_cancels:
  assumes "notificationsOwned s"
    and "find (\<lambda>reminder. id_r reminder = rid) (reminders s) = Some existing"
  shows "liveFor rid (notifications (removeReminder rid s)) = []
    \<and> rid \<notin> id_r ` set (reminders (removeReminder rid s))"
proof -
  have n: "notifications (removeReminder rid s) = cancelExisting rid s"
    unfolding removeReminder_def cancelExisting_def Let_def by simp
  have "reminders (removeReminder rid s) = filter (\<lambda>reminder. id_r reminder \<noteq> rid) (reminders s)"
    unfolding removeReminder_def Let_def by simp
  then have "rid \<notin> id_r ` set (reminders (removeReminder rid s))" by auto
  with cancelExisting_clears [OF assms] show ?thesis unfolding n by simp
qed

lemma toggleReminder_preserves_owned:
  assumes "notificationsOwned s"
  shows "notificationsOwned (toggleReminder rid s)"
proof -
  have "\<exists>x\<in>set (reminders s). id_r x = id_r r \<and> notificationId x = notificationId r"
    if "r \<in> set (reminders (toggleReminder rid s))" for r
    using that unfolding toggleReminder_def by (auto split: if_splits)
  moreover have "notifications (toggleReminder rid s) = notifications s"
    unfolding toggleReminder_def by simp
  ultimately show ?thesis
    using assms unfolding notificationsOwned_def by (metis (no_types, lifting))
qed

lemma toggleTodoItemFromReminder_preserves_owned:
  assumes "notificationsOwned s"
  shows "notificationsOwned (toggleTodoItemFromReminder rid tid s)"
proof -
  have "\<exists>x\<in>set (reminders s). id_r x = id_r r \<and> notificationId x = notificationId r"
    if "r \<in> set (reminders (toggleTodoItemFromReminder rid tid s))" for r
    using that unfolding toggleTodoItemFromReminder_def by (auto split: if_splits)
  moreover have "notifications (toggleTodoItemFromReminder rid tid s) = notifications s"
    unfolding toggleTodoItemFromReminder_def by simp
  ultimately show ?thesis
    using assms unfolding notificationsOwned_def by (metis (no_types, lifting))
qed

section \<open>Loading and saving the collection\<close>

lemma map_enumerate_cong:
  "(\<And>k x. x \<in> set xs \<Longrightarrow> f k x = g x) \<Longrightarrow> map (\<lambda>(k, x). f k x) (enumerate n xs) = map g xs"
  by (induction xs arbitrary: n) simp_all

lemma parseReminder_JSON_stringify:
  assumes "noteType r = Text \<longrightarrow> todoItems r = []"
  shows "parseReminder lp i (JSON_stringify r) = r"
proof -
  have "repeat (parseReminder lp i (JSON_stringify r)) = repeat r"
    unfolding parseReminder_def JSON_stringify_def by (cases "repeat r") simp_all
  moreover have "noteType (parseReminder lp i (JSON_stringify r)) = noteType r"
    unfolding parseReminder_def JSON_stringify_def by (cases "noteType r") simp_all
  moreover have "todoItems (parseReminder lp i (JSON_stringify r)) = todoItems r"
    unfolding parseReminder_def JSON_stringify_def using assms by (cases "noteType r") simp_all
  ultimately show ?thesis
    by (simp add: parseReminder_def JSON_stringify_def Reminder.equality)
qed

lemma parsedReminders_nth:
  "i < length records \<Longrightarrow> parsedReminders lp records ! i = parseReminder lp i (records ! i)"
  unfolding parsedReminders_def by (simp add: nth_enumerate_eq)

lemma length_parsedReminders: "length (parsedReminders lp records) = length records"
  unfolding parsedReminders_def by simp

lemma parsedReminders_JSON_stringify:
  assumes "\<forall>r\<in>set rs. noteType r = Text \<longrightarrow> todoItems r = []"
  shows "parsedReminders lp (map JSON_stringify rs) = rs"
proof (rule nth_equalityI)
  show "length (parsedReminders lp (map JSON_stringify rs)) = length rs"
    by (simp add: length_parsedReminders)
next
  fix i
  assume "i < length (parsedReminders lp (map JSON_stringify rs))"
  then have i: "i < length rs" by (simp add: length_parsedReminders)
  then have "rs ! i \<in> set rs" by simp
  with assms have "noteType (rs ! i) = Text \<longrightarrow> todoItems (rs ! i) = []" by blast
  then show "parsedReminders lp (map JSON_stringify rs) ! i = rs ! i"
    using i by (simp add: parsedReminders_nth parseReminder_JSON_stringify)
qed

lemma loadReminders_Records:
  "reminders (loadReminders lp (Records records) s) = parsedReminders lp records"
  unfolding loadReminders_def by simp

lemma dropWhile_all: "\<forall>x\<in>set xs. P x \<Longrightarrow> dropWhile P xs = []"
  by simp

lemma trim_blank:
  assumes "\<forall>c\<in>set s. isWhiteSpace c"
  shows "trim s = []"
proof -
  have d: "dropWhile isWhiteSpace s = []" using assms by (rule dropWhile_all)
  show ?thesis unfolding trim_def d by simp
qed

lemma splitString_pieces: "piece \<in> set (splitString sep s) \<Longrightarrow> set piece \<subseteq> set s"
proof (induction s arbitrary: piece)
  case Nil
  then show ?case by simp
next
  case (Cons c cs)
  show ?case
  proof (cases "c = sep")
    case True
    with Cons show ?thesis by auto
  next
    case False
    show ?thesis
    proof (cases "splitString sep cs")
      case Nil
      with False Cons.prems show ?thesis by simp
    next
      case (Cons p ps)
      with False Cons.prems have "piece = c # p \<or> piece \<in> set ps" by simp
      moreover have "set p \<subseteq> set cs" using Cons.IH [of p] Cons by simp
      moreover have "piece \<in> set ps \<Longrightarrow> set piece \<subseteq> set cs"
        using Cons.IH [of piece] Cons by simp
      ultimately show ?thesis by auto
    qed
  qed
qed

lemma parseLegacyTodoItems_blank:
  assumes "\<forall>c\<in>set notes'. isWhiteSpace c"
  shows "parseLegacyTodoItems stamp notes' = []"
proof -
  have "trim piece = []" if "piece \<in> set (splitString CHR 0x0A notes')" for piece
    using splitString_pieces [OF that] assms by (intro trim_blank) blast
  then have "filter (\<lambda>item. item \<noteq> []) (map trim (splitString CHR 0x0A notes')) = []"
    by (simp add: filter_empty_conv)
  then show ?thesis unfolding parseLegacyTodoItems_def by simp
qed

lemma parseLegacyTodoItems_text:
  "map text_t (parseLegacyTodoItems stamp notes')
     = filter (\<lambda>item. item \<noteq> []) (map trim (splitString CHR 0x0A notes'))"
  unfolding parseLegacyTodoItems_def
  by (simp add: map_enumerate_cong [where g = "\<lambda>x. x"] comp_def case_prod_unfold enumerate_eq_zip)

lemma parseLegacyTodoItems_done:
  "item \<in> set (parseLegacyTodoItems stamp notes') \<Longrightarrow> done_t item = False"
  unfolding parseLegacyTodoItems_def by auto

lemma parseLegacyTodoItems_example:
  "parseLegacyTodoItems stamp (''buy milk'' @ [CHR 0x0A] @ ''walk dog'')
     = [\<lparr>id_t = stamp 0 @ ''-buy milk'', text_t = ''buy milk'', done_t = False\<rparr>,
        \<lparr>id_t = stamp 1 @ ''-walk dog'', text_t = ''walk dog'', done_t = False\<rparr>]"
  unfolding parseLegacyTodoItems_def
  by (simp add: trim_def isWhiteSpace_def enumerate_eq_zip upt_rec)


text \<open>
  Claim C8. Once the initial load has completed the collection is written after every change.
  Loading what was written gives the collection back unchanged, for every collection in which a
  text-typed reminder has no checklist items (as the data-model invariant "the inactive one of
  notes and checklist is empty" requires; nothing else of well-formedness is needed).
\<close>

theorem load_after_persist_roundtrip:
  assumes "hasLoadedReminders s"
    and "\<forall>r\<in>set (reminders s). noteType r = Text \<longrightarrow> todoItems r = []"
  shows "reminders (loadReminders lp (persistReminders s stored) s0) = reminders s"
  using assms unfolding persistReminders_def
  by (simp add: loadReminders_Records parsedReminders_JSON_stringify)

theorem load_after_persist_roundtrip_witness:
  "reminders
     (loadReminders fixedLoadPlatform
        (persistReminders
           ((initialState 0)\<lparr>reminders := [teaReminder, shoppingReminder],
                             hasLoadedReminders := True\<rparr>)
           NoValue)
        (initialState 0))
   = [teaReminder, shoppingReminder]"
  using load_after_persist_roundtrip
    [of "(initialState 0)\<lparr>reminders := [teaReminder, shoppingReminder], hasLoadedReminders := True\<rparr>"
        fixedLoadPlatform NoValue "initialState 0"]
  by (simp add: teaReminder_def shoppingReminder_def)

text \<open>
  Claim C9. A stored record of type todo without a checklist and with a notes string is
  migrated on load: the notes are split at line breaks, each line is trimmed and blank lines are
  dropped, and the remaining lines become the checklist items, in their order and not done. When
  no line is blank or has white space around it, the items are exactly the lines. The notes
  "buy milk", line break, "walk dog" give exactly the two items "buy milk" and "walk dog".
\<close>

theorem load_migrates_legacy_notes:
  assumes "i < length records"
    and "noteType_p (records ! i) = Some ''todo''"
    and "todoItems_p (records ! i) = None"
    and "notes_p (records ! i) = Some notes'"
  shows "reminders (loadReminders lp (Records records) s) ! i = parseReminder lp i (records ! i)
    \<and> noteType (parseReminder lp i (records ! i)) = Todo
    \<and> map text_t (todoItems (parseReminder lp i (records ! i)))
        = filter (\<lambda>line. line \<noteq> []) (map trim (splitString CHR 0x0A notes'))
    \<and> (\<forall>item\<in>set (todoItems (parseReminder lp i (records ! i))). done_t item = False)
    \<and> ((\<forall>line\<in>set (splitString CHR 0x0A notes'). line \<noteq> [] \<and> trim line = line)
        \<longrightarrow> map text_t (todoItems (parseReminder lp i (records ! i))) = splitString CHR 0x0A notes')
    \<and> (notes' = ''buy milk'' @ [CHR 0x0A] @ ''walk dog''
        \<longrightarrow> map text_t (todoItems (parseReminder lp i (records ! i))) = [''buy milk'', ''walk dog'']
          \<and> map done_t (todoItems (parseReminder lp i (records ! i))) = [False, False])"
proof -
  have items: "todoItems (parseReminder lp i (records ! i)) = parseLegacyTodoItems (itemStamp lp i) notes'"
    using assms unfolding parseReminder_def by simp
  have "reminders (loadReminders lp (Records records) s) ! i = parseReminder lp i (records ! i)"
    using assms(1) by (simp add: loadReminders_Records parsedReminders_nth)
  moreover have "noteType (parseReminder lp i (records ! i)) = Todo"
    using assms unfolding parseReminder_def by simp
  moreover have "(\<forall>line\<in>set (splitString CHR 0x0A notes'). line \<noteq> [] \<and> trim line = line)
        \<longrightarrow> filter (\<lambda>line. line \<noteq> []) (map trim (splitString CHR 0x0A notes'))
            = splitString CHR 0x0A notes'"
    by (auto simp: filter_id_conv map_idI)
  moreover have "notes' = ''buy milk'' @ [CHR 0x0A] @ ''walk dog''
        \<longrightarrow> parseLegacyTodoItems (itemStamp lp i) notes'
            = [\<lparr>id_t = itemStamp lp i 0 @ ''-buy milk'', text_t = ''buy milk'', done_t = False\<rparr>,
               \<lparr>id_t = itemStamp lp i 1 @ ''-walk dog'', text_t = ''walk dog'', done_t = False\<rparr>]"
    using parseLegacyTodoItems_example [of "itemStamp lp i"] by simp
  ultimately show ?thesis
    unfolding items
    by (auto simp: parseLegacyTodoItems_text parseLegacyTodoItems_done)
qed

theorem load_migrates_legacy_notes_witness:
  "map text_t (todoItems (reminders (loadReminders fixedLoadPlatform
       (Records [legacyRecord (''buy milk'' @ [CHR 0x0A] @ ''walk dog'')]) (initialState 0)) ! 0))
     = [''buy milk'', ''walk dog'']
   \<and> map done_t (todoItems (reminders (loadReminders fixedLoadPlatform
       (Records [legacyRecord (''buy milk'' @ [CHR 0x0A] @ ''walk dog'')]) (initialState 0)) ! 0))
     = [False, False]"
proof -
  define records where "records = [legacyRecord (''buy milk'' @ [CHR 0x0A] @ ''walk dog'')]"
  have "0 < length records"
    and "noteType_p (records ! 0) = Some ''todo''"
    and "todoItems_p (records ! 0) = None"
    and "notes_p (records ! 0) = Some (''buy milk'' @ [CHR 0x0A] @ ''walk dog'')"
    unfolding records_def legacyRecord_def by simp_all
  from load_migrates_legacy_notes [OF this, of fixedLoadPlatform "initialState 0"]
  have a: "reminders (loadReminders fixedLoadPlatform (Records records) (initialState 0)) ! 0
             = parseReminder fixedLoadPlatform 0 (records ! 0)"
    and b: "map text_t (todoItems (parseReminder fixedLoadPlatform 0 (records ! 0)))
             = [''buy milk'', ''walk dog'']
           \<and> map done_t (todoItems (parseReminder fixedLoadPlatform 0 (records ! 0)))
             = [False, False]"
    by blast+
  from b show ?thesis unfolding records_def [symmetric] a .
qed

text \<open>
  Claim C10. A stored record of type todo without a checklist whose notes are missing, empty
  or all white space loads as a reminder of type todo with an empty checklist.
\<close>

theorem load_blank_legacy_todo_is_empty:
  assumes "i < length records"
    and "noteType_p (records ! i) = Some ''todo''"
    and "todoItems_p (records ! i) = None"
    and "\<forall>c\<in>set (case notes_p (records ! i) of Some v \<Rightarrow> v | None \<Rightarrow> []). isWhiteSpace c"
  shows "noteType (reminders (loadReminders lp (Records records) s) ! i) = Todo
    \<and> todoItems (reminders (loadReminders lp (Records records) s) ! i) = []"
proof -
  have "reminders (loadReminders lp (Records records) s) ! i = parseReminder lp i (records ! i)"
    using assms(1) by (simp add: loadReminders_Records parsedReminders_nth)
  moreover have "noteType (parseReminder lp i (records ! i)) = Todo"
    using assms unfolding parseReminder_def by simp
  moreover have "todoItems (parseReminder lp i (records ! i)) = []"
    using assms(2,3) parseLegacyTodoItems_blank [OF assms(4)]
    unfolding parseReminder_def by simp
  ultimately show ?thesis by simp
qed

theorem load_blank_legacy_todo_is_empty_witness:
  "noteType (reminders (loadReminders fixedLoadPlatform
       (Records [legacyRecord ('' '' @ [CHR 0x0A] @ ''  '')]) (initialState 0)) ! 0) = Todo
   \<and> todoItems (reminders (loadReminders fixedLoadPlatform
       (Records [legacyRecord ('' '' @ [CHR 0x0A] @ ''  '')]) (initialState 0)) ! 0) = []"
  using load_blank_legacy_todo_is_empty
    [of 0 "[legacyRecord ('' '' @ [CHR 0x0A] @ ''  '')]" fixedLoadPlatform "initialState 0"]
  by (simp add: legacyRecord_def isWhiteSpace_def)

section \<open>The invariant of the reachable states\<close>

lemma owned_cong:
  assumes "notificationsOwned s"
    and "notifications s' = notifications s" and "reminders s' = reminders s"
  shows "notificationsOwned s'"
  using assms unfolding notificationsOwned_def by simp

lemma saveReminder_preserves_owned:
  assumes "notificationsOwned s" and "createdId p \<noteq> []"
    and "\<not> truthy (editingReminderId s) \<longrightarrow>
        showInt (idNow p) @ ''-'' @ trim (newReminder s) \<notin> id_r ` set (reminders s)
        \<and> showInt (idNow p) @ ''-'' @ trim (newReminder s)
            \<notin> data_reminderId ` set (notifications s)"
  shows "notificationsOwned (saveReminder p s)"
proof (cases "saveAccepted s")
  case False
  with assms(1) show ?thesis by (rule rejected_preserves_owned)
next
  case True
  show ?thesis
  proof (cases "truthy (editingReminderId s)")
    case editing: True
    then have "isEditing s (the (editingReminderId s))" unfolding truthy_isEditing .
    from edit_preserves_owned [OF assms(1) True this assms(2)] show ?thesis .
  next
    case False
    with assms(3) create_preserves_owned [OF assms(1) True False assms(2)] show ?thesis by blast
  qed
qed

lemma draftFields_checklist:
  "noteType (draftFields p s r) = Text \<Longrightarrow> todoItems (draftFields p s r) = []"
  unfolding draftFields_def by (auto split: if_splits)

lemma saveReminder_preserves_checklist:
  assumes "checklistOnlyForTodo (reminders s)"
  shows "checklistOnlyForTodo (reminders (saveReminder p s))"
proof (cases "saveAccepted s")
  case False
  have "reminders (saveReminder p s) = reminders s"
  proof (cases "trim (newReminder s) = []")
    case True
    then show ?thesis by (simp add: saveReminder_blank_title)
  next
    case nonblank: False
    with False have "showNotes s" "noteType_state s = Todo" "draftTodoItems s = []"
      unfolding saveAccepted_def by simp_all
    from saveReminder_empty_checklist [OF nonblank this, of p] show ?thesis by simp
  qed
  with assms show ?thesis by simp
next
  case True
  show ?thesis
  proof (cases "truthy (editingReminderId s)")
    case editing: True
    then have e: "isEditing s (the (editingReminderId s))" unfolding truthy_isEditing .
    show ?thesis
      unfolding checklistOnlyForTodo_def saveReminder_edit_reminders [OF True e]
    proof (intro ballI impI)
      fix r
      assume r: "r \<in> set (map (\<lambda>reminder. if id_r reminder = the (editingReminderId s)
                                 then draftFields p s reminder else reminder) (reminders s))"
        and t: "noteType r = Text"
      from edited_reminder [OF r] consider x where "r = draftFields p s x" | "r \<in> set (reminders s)"
        by blast
      then show "todoItems r = []"
      proof cases
        case 1
        with t show ?thesis using draftFields_checklist by blast
      next
        case 2
        with assms t show ?thesis unfolding checklistOnlyForTodo_def by blast
      qed
    qed
  next
    case False
    show ?thesis
      using assms saveReminder_create [OF True False, of p] draftFields_checklist
      unfolding checklistOnlyForTodo_def by auto
  qed
qed

lemma parsedReminders_checklist: "checklistOnlyForTodo (parsedReminders lp records)"
  unfolding checklistOnlyForTodo_def parsedReminders_def parseReminder_def by auto

text \<open>
  In every reachable state the collection and the device are linked as \<open>notificationsOwned\<close>
  says, so that every reminder has at most one live notification, and text notes have no
  checklist items, so that the collection survives being stored and loaded.
\<close>

lemma reachable_invariant:
  "reachable s \<Longrightarrow> notificationsOwned s \<and> checklistOnlyForTodo (reminders s)"
proof (induction rule: reachable.induct)
  case (launch lp now)
  show ?case
    unfolding loadReminders_def notificationsOwned_def checklistOnlyForTodo_def initialState_def
    by simp
next
  case (compose s visible title' shown notes' itemText items kind policy minutes time editing)
  then show ?case unfolding notificationsOwned_def by simp
next
  case (save s p)
  then show ?case
    using saveReminder_preserves_owned saveReminder_preserves_checklist by blast
next
  case (toggle s rid)
  then have "checklistOnlyForTodo (reminders (toggleReminder rid s))"
    unfolding checklistOnlyForTodo_def toggleReminder_def by auto
  with toggle show ?case using toggleReminder_preserves_owned by blast
next
  case (toggleTodo s rid tid)
  then have "checklistOnlyForTodo (reminders (toggleTodoItemFromReminder rid tid s))"
    unfolding checklistOnlyForTodo_def toggleTodoItemFromReminder_def by auto
  with toggleTodo show ?case using toggleTodoItemFromReminder_preserves_owned by blast
next
  case (remove s rid)
  then have "checklistOnlyForTodo (reminders (removeReminder rid s))"
    unfolding checklistOnlyForTodo_def removeReminder_def Let_def by auto
  with remove show ?case using removeReminder_preserves_owned by blast
next
  case (delivered s keep)
  then show ?case unfolding notificationsOwned_def by (auto simp: distinct_map_filter)
next
  case (restart s lp stored now)
  then have r: "reminders (loadReminders lp (persistReminders s stored)
                  ((initialState now)\<lparr>notifications := notifications s\<rparr>)) = reminders s"
    unfolding persistReminders_def checklistOnlyForTodo_def
    by (simp add: loadReminders_Records parsedReminders_JSON_stringify)
  have n: "notifications (loadReminders lp (persistReminders s stored)
                  ((initialState now)\<lparr>notifications := notifications s\<rparr>)) = notifications s"
    unfolding loadReminders_def by (simp split: StoredValue.splits)
  from restart show ?case
    using owned_cong [OF _ n r] unfolding r by blast
qed

lemma reachable_at_most_one:
  assumes "reachable s" and "r \<in> set (reminders s)"
  shows "length (liveFor (id_r r) (notifications s)) \<le> 1"
  using reachable_invariant [OF assms(1)] assms(2) by (intro owned_at_most_one) simp_all


end

